theory Spec2Isabelle
  imports Complex_Main
begin

section \<open>JavaScript strings\<close>

text \<open>
  Strings are lists of characters. \<^verbatim>\<open>toLowerCase\<close> maps the ASCII capitals and leaves
  every other character alone; \<^verbatim>\<open>startsWith\<close> and \<^verbatim>\<open>includes\<close> are the methods of
  \<^verbatim>\<open>String.prototype\<close> (the latter under the name \<open>str_includes\<close>).
\<close>

definition toLowerCase :: "string \<Rightarrow> string" where
  "toLowerCase s =
     map (\<lambda>c. case map_of (zip ''ABCDEFGHIJKLMNOPQRSTUVWXYZ'' ''abcdefghijklmnopqrstuvwxyz'') c of
                Some l \<Rightarrow> l | None \<Rightarrow> c) s"

fun startsWith :: "string \<Rightarrow> string \<Rightarrow> bool" where
  "startsWith s [] = True"
| "startsWith [] (p # ps) = False"
| "startsWith (c # cs) (p # ps) = (c = p \<and> startsWith cs ps)"

fun str_includes :: "string \<Rightarrow> string \<Rightarrow> bool" where
  "str_includes [] sub = (sub = [])"
| "str_includes (c # cs) sub = (startsWith (c # cs) sub \<or> str_includes cs sub)"



section \<open>Errors of the DEX layer (src/lib/dex/errors.ts, types.ts)\<close>

text \<open>
  \<^verbatim>\<open>SwapErrorCode\<close> is the enum of \<^verbatim>\<open>types.ts\<close>. A value thrown inside the DEX layer is
  either a \<^verbatim>\<open>DexSwapError\<close> (code and message; details, suggestions, timestamp and the
  recoverable flag are never read by the code modelled here) or another JavaScript
  \<^verbatim>\<open>Error\<close>, of which only the message is read. Message texts that are Chinese in the
  source are rendered in English: the theory is ASCII, and the code never inspects the
  message of a \<^verbatim>\<open>DexSwapError\<close>.
\<close>

datatype SwapErrorCode =
    INSUFFICIENT_BALANCE
  | INSUFFICIENT_ALLOWANCE
  | SLIPPAGE_EXCEEDED
  | DEADLINE_EXCEEDED
  | LIQUIDITY_INSUFFICIENT
  | PRICE_IMPACT_TOO_HIGH
  | NETWORK_ERROR
  | API_ERROR
  | GAS_ESTIMATION_FAILED
  | TRANSACTION_FAILED
  | INVALID_PARAMETERS
  | UNKNOWN_ERROR

datatype js_error =
    DexSwapError SwapErrorCode string
  | PlainError string

fun error_message :: "js_error \<Rightarrow> string" where
  "error_message (DexSwapError c m) = m"
| "error_message (PlainError m) = m"

text \<open>\<^verbatim>\<open>DexErrorFactory.apiError(apiName, statusCode, responseData)\<close>: the status code is
  given as its decimal text, \<^verbatim>\<open>None\<close> when the argument is undefined (or 0, which the
  template treats alike).\<close>

definition apiError :: "string \<Rightarrow> string option \<Rightarrow> js_error" where
  "apiError apiName statusCode =
     DexSwapError API_ERROR
       (''API error ('' @ apiName @ '')'' @
        (case statusCode of None \<Rightarrow> '''' | Some s \<Rightarrow> '' HTTP '' @ s))"

section \<open>Circuit breaker (src/lib/dex/retry.ts, class CircuitBreaker)\<close>

datatype breaker_state = CLOSED | OPEN | HALF_OPEN

record CircuitBreaker =
  failureCount :: int
  successCount :: int
  lastFailureTime :: int
  state :: breaker_state
  failureThreshold :: int
  recoveryTimeMs :: int
  successThreshold :: int

text \<open>The constructor, with its default arguments \<^verbatim>\<open>(5, 60000, 2)\<close> made explicit.\<close>

definition new_CircuitBreaker :: "int \<Rightarrow> int \<Rightarrow> int \<Rightarrow> CircuitBreaker" where
  "new_CircuitBreaker ft rt st =
     \<lparr>failureCount = 0, successCount = 0, lastFailureTime = 0, state = CLOSED,
      failureThreshold = ft, recoveryTimeMs = rt, successThreshold = st\<rparr>"

definition onSuccess :: "CircuitBreaker \<Rightarrow> CircuitBreaker" where
  "onSuccess cb =
     (let cb1 = cb\<lparr>failureCount := 0\<rparr> in
      if state cb1 = HALF_OPEN then
        (let cb2 = cb1\<lparr>successCount := successCount cb1 + 1\<rparr> in
         if successCount cb2 \<ge> successThreshold cb2
         then cb2\<lparr>state := CLOSED, successCount := 0\<rparr>
         else cb2)
      else cb1)"

text \<open>\<^verbatim>\<open>onFailure\<close> reads the clock once; \<open>now\<close> is that reading.\<close>

definition onFailure :: "int \<Rightarrow> CircuitBreaker \<Rightarrow> CircuitBreaker" where
  "onFailure now cb =
     (let cb1 = cb\<lparr>failureCount := failureCount cb + 1,
                    lastFailureTime := now,
                    successCount := 0\<rparr> in
      if failureCount cb1 \<ge> failureThreshold cb1 then cb1\<lparr>state := OPEN\<rparr> else cb1)"

text \<open>
  \<^verbatim>\<open>execute(operation)\<close>. \<open>now\<close> is the clock at entry, \<open>outcome\<close> what the awaited
  operation does when it is invoked (\<open>Inl\<close>: it throws), \<open>now'\<close> the clock when the
  operation has settled. The result pairs what \<^verbatim>\<open>execute\<close> returns or throws with the
  breaker afterwards; the third component tells whether the operation was invoked.
\<close>

definition execute ::
  "int \<Rightarrow> (js_error + 'a) \<Rightarrow> int \<Rightarrow> CircuitBreaker \<Rightarrow> (js_error + 'a) \<times> CircuitBreaker \<times> bool" where
  "execute now outcome now' cb =
     (if state cb = OPEN \<and> now - lastFailureTime cb < recoveryTimeMs cb
      then (Inl (apiError ''Circuit Breaker'' (Some ''503'')), cb, False)
      else
        (let cb1 = (if state cb = OPEN then cb\<lparr>state := HALF_OPEN\<rparr> else cb) in
         case outcome of
           Inr result \<Rightarrow> (Inr result, onSuccess cb1, True)
         | Inl error \<Rightarrow> (Inl error, onFailure now' cb1, True)))"

text \<open>The breaker after a list of calls, each given by its entry time, outcome and
  settle time; the breaker of \<^verbatim>\<open>DexRetryManager\<close> is \<^verbatim>\<open>new CircuitBreaker(5, 60000, 2)\<close>.\<close>

fun execute_all :: "(int \<times> (js_error + 'a) \<times> int) list \<Rightarrow> CircuitBreaker \<Rightarrow> CircuitBreaker" where
  "execute_all [] cb = cb"
| "execute_all ((now, outcome, now') # calls) cb =
     execute_all calls (fst (snd (execute now outcome now' cb)))"

section \<open>Retry engine (src/lib/dex/retry.ts, class SmartRetryManager)\<close>

text \<open>
  JavaScript numbers that count (attempts, clock readings in milliseconds) are integers;
  delays, which the source computes with \<^verbatim>\<open>Math.pow\<close> and \<^verbatim>\<open>Math.random\<close>, are exact
  rationals (rounding of doubles is not modelled; no result of the engine depends on a
  delay).
\<close>

datatype RetryStrategy = FIXED_DELAY | EXPONENTIAL_BACKOFF | LINEAR_BACKOFF | JITTERED_BACKOFF

record RetryConfig =
  maxAttempts :: int
  backoffMs :: rat
  backoffMultiplier :: rat
  retryableErrors :: "SwapErrorCode list"

record RetryContext =
  attempt :: int
  startTime :: int
  lastError :: "js_error option"
  delays :: "rat list"

record 'a RetryResult =
  success :: bool
  result :: "'a option"
  error :: "js_error option"
  attempts :: int
  totalDuration :: int
  lastAttemptAt :: int

text \<open>\<^verbatim>\<open>isRetryableError(error, retryableErrors)\<close>: by code for a \<^verbatim>\<open>DexSwapError\<close>, by the
  words of the lower-cased message otherwise.\<close>

definition isRetryableError :: "js_error \<Rightarrow> SwapErrorCode list \<Rightarrow> bool" where
  "isRetryableError err retryable =
     (case err of
        DexSwapError code m \<Rightarrow> code \<in> set retryable
      | PlainError m \<Rightarrow>
          (let message = toLowerCase m in
           if str_includes message ''network'' \<or> str_includes message ''timeout'' \<or>
              str_includes message ''connection'' \<or> str_includes message ''fetch''
           then NETWORK_ERROR \<in> set retryable
           else if str_includes message ''api'' \<or> str_includes message ''500'' \<or>
              str_includes message ''502'' \<or> str_includes message ''503'' \<or>
              str_includes message ''504''
           then API_ERROR \<in> set retryable
           else if str_includes message ''gas'' \<or> str_includes message ''estimate''
           then GAS_ESTIMATION_FAILED \<in> set retryable
           else False))"

text \<open>\<^verbatim>\<open>calculateDelay(attempt, config)\<close>; \<open>random\<close> is the value \<^verbatim>\<open>Math.random()\<close> returns
  for this delay.\<close>

definition calculateDelay :: "RetryStrategy \<Rightarrow> rat \<Rightarrow> int \<Rightarrow> RetryConfig \<Rightarrow> rat" where
  "calculateDelay strategy random att config =
     (let delay =
        (case strategy of
           FIXED_DELAY \<Rightarrow> backoffMs config
         | LINEAR_BACKOFF \<Rightarrow> backoffMs config * of_int att
         | EXPONENTIAL_BACKOFF \<Rightarrow> backoffMs config * backoffMultiplier config ^ nat (att - 1)
         | JITTERED_BACKOFF \<Rightarrow>
             (let exponentialDelay = backoffMs config * backoffMultiplier config ^ nat (att - 1);
                  jitter = random * (3 / 10) * exponentialDelay
              in exponentialDelay + jitter))
      in min delay 30000)"

text \<open>
  \<^verbatim>\<open>executeAttempts(operation, context, config)\<close>: the loop
  \<^verbatim>\<open>for (attempt = 1; attempt <= config.maxAttempts; attempt++)\<close>, as a recursion on the
  loop variable \<open>att\<close>. \<open>operation k\<close> is what the \<open>k\<close>-th invocation of the operation
  does (\<open>Inl\<close>: it throws). \<open>lastErr\<close> is the local \<^verbatim>\<open>lastError\<close>, \<open>None\<close> while it is
  unassigned: \<^verbatim>\<open>throw lastError!\<close> after the loop then throws \<^verbatim>\<open>undefined\<close>, which is the
  \<open>Inl None\<close> of the result. The context is the mutated \<^verbatim>\<open>RetryContext\<close>.
\<close>

function executeAttempts ::
  "RetryStrategy \<Rightarrow> (int \<Rightarrow> rat) \<Rightarrow> (int \<Rightarrow> js_error + 'a) \<Rightarrow> RetryConfig \<Rightarrow>
   int \<Rightarrow> js_error option \<Rightarrow> RetryContext \<Rightarrow> (js_error option + 'a) \<times> RetryContext" where
  "executeAttempts strategy random operation config att lastErr context =
     (if att \<le> maxAttempts config then
        (let context1 = context\<lparr>attempt := att\<rparr> in
         case operation att of
           Inr r \<Rightarrow> (Inr r, context1)
         | Inl err \<Rightarrow>
             (let context2 = context1\<lparr>lastError := Some err\<rparr> in
              if \<not> isRetryableError err (retryableErrors config)
              then (Inl (Some err), context2)
              else
                (let context3 =
                   (if att < maxAttempts config
                    then context2\<lparr>delays := delays context2 @
                           [calculateDelay strategy (random att) att config]\<rparr>
                    else context2)
                 in executeAttempts strategy random operation config (att + 1) (Some err) context3)))
      else (Inl lastErr, context))"
  by pat_completeness auto
termination
  by (relation "measure (\<lambda>(strategy, random, operation, config, att, lastErr, context).
                  nat (maxAttempts config + 1 - att))") auto

declare executeAttempts.simps [simp del]

text \<open>\<^verbatim>\<open>{ ...this.config, ...customConfig }\<close> with \<^verbatim>\<open>customConfig?: Partial<RetryConfig>\<close>.\<close>

record PartialRetryConfig =
  p_maxAttempts :: "int option"
  p_backoffMs :: "rat option"
  p_backoffMultiplier :: "rat option"
  p_retryableErrors :: "SwapErrorCode list option"

definition mergeRetryConfig :: "RetryConfig \<Rightarrow> PartialRetryConfig option \<Rightarrow> RetryConfig" where
  "mergeRetryConfig base custom =
     (case custom of
        None \<Rightarrow> base
      | Some c \<Rightarrow>
          \<lparr>maxAttempts = (case p_maxAttempts c of None \<Rightarrow> maxAttempts base | Some v \<Rightarrow> v),
           backoffMs = (case p_backoffMs c of None \<Rightarrow> backoffMs base | Some v \<Rightarrow> v),
           backoffMultiplier =
             (case p_backoffMultiplier c of None \<Rightarrow> backoffMultiplier base | Some v \<Rightarrow> v),
           retryableErrors =
             (case p_retryableErrors c of None \<Rightarrow> retryableErrors base | Some v \<Rightarrow> v)\<rparr>)"

record SmartRetryManager =
  retry_config :: RetryConfig
  retry_strategy :: RetryStrategy
  activeRetries :: "string \<rightharpoonup> RetryContext"

text \<open>\<^verbatim>\<open>if (operationId)\<close>: the id is given and not the empty string.\<close>

definition truthy_id :: "string option \<Rightarrow> bool" where
  "truthy_id operationId = (case operationId of None \<Rightarrow> False | Some i \<Rightarrow> i \<noteq> [])"

text \<open>
  \<^verbatim>\<open>executeWithRetry(operation, operationId, customConfig)\<close>. \<open>now0\<close>, \<open>now1\<close> and \<open>now2\<close>
  are the three readings of \<^verbatim>\<open>Date.now()\<close> (start, total duration, last attempt). The
  entry of \<^verbatim>\<open>activeRetries\<close> set on entry is deleted in the \<^verbatim>\<open>finally\<close> block.
\<close>

definition executeWithRetry ::
  "(int \<Rightarrow> rat) \<Rightarrow> int \<Rightarrow> int \<Rightarrow> int \<Rightarrow> (int \<Rightarrow> js_error + 'a) \<Rightarrow> string option \<Rightarrow>
   PartialRetryConfig option \<Rightarrow> SmartRetryManager \<Rightarrow> 'a RetryResult \<times> SmartRetryManager" where
  "executeWithRetry random now0 now1 now2 operation operationId customConfig mgr =
     (let effectiveConfig = mergeRetryConfig (retry_config mgr) customConfig;
          context = \<lparr>attempt = 0, startTime = now0, lastError = None, delays = []\<rparr>;
          (outcome, context') =
             executeAttempts (retry_strategy mgr) random operation effectiveConfig 1 None context;
          mgr' = (if truthy_id operationId
                  then mgr\<lparr>activeRetries := (activeRetries mgr)(the operationId := None)\<rparr>
                  else mgr)
      in case outcome of
           Inr r \<Rightarrow>
             (\<lparr>success = True, result = Some r, error = None, attempts = attempt context',
               totalDuration = now1 - startTime context', lastAttemptAt = now2\<rparr>, mgr')
         | Inl e \<Rightarrow>
             (\<lparr>success = False, result = None, error = e, attempts = attempt context',
               totalDuration = now1 - startTime context', lastAttemptAt = now2\<rparr>, mgr'))"


text \<open>The preconfigured managers of \<^verbatim>\<open>DexRetryManager\<close>.\<close>

definition networkRetry :: SmartRetryManager where
  "networkRetry =
     \<lparr>retry_config = \<lparr>maxAttempts = 3, backoffMs = 1000, backoffMultiplier = 2,
                      retryableErrors = [NETWORK_ERROR]\<rparr>,
      retry_strategy = EXPONENTIAL_BACKOFF, activeRetries = Map.empty\<rparr>"

definition apiRetry :: SmartRetryManager where
  "apiRetry =
     \<lparr>retry_config = \<lparr>maxAttempts = 5, backoffMs = 500, backoffMultiplier = 3 / 2,
                      retryableErrors = [API_ERROR]\<rparr>,
      retry_strategy = JITTERED_BACKOFF, activeRetries = Map.empty\<rparr>"

definition transactionRetry :: SmartRetryManager where
  "transactionRetry =
     \<lparr>retry_config = \<lparr>maxAttempts = 2, backoffMs = 2000, backoffMultiplier = 2,
                      retryableErrors = [GAS_ESTIMATION_FAILED]\<rparr>,
      retry_strategy = FIXED_DELAY, activeRetries = Map.empty\<rparr>"

section \<open>Quote cache (src/lib/dex/cache.ts, class SmartCacheManager)\<close>

text \<open>
  A JavaScript \<^verbatim>\<open>Map\<close> keeps its entries in insertion order, and \<^verbatim>\<open>forEach\<close> visits them
  in that order: it is an association list with at most one pair per key. \<^verbatim>\<open>set\<close> on a
  present key replaces the value in place, on an absent key it appends.
\<close>

fun Map_get :: "('k \<times> 'v) list \<Rightarrow> 'k \<Rightarrow> 'v option" where
  "Map_get [] k = None"
| "Map_get ((k', v) # m) k = (if k' = k then Some v else Map_get m k)"

definition Map_has :: "('k \<times> 'v) list \<Rightarrow> 'k \<Rightarrow> bool" where
  "Map_has m k = (Map_get m k \<noteq> None)"

fun Map_set :: "'k \<Rightarrow> 'v \<Rightarrow> ('k \<times> 'v) list \<Rightarrow> ('k \<times> 'v) list" where
  "Map_set k v [] = [(k, v)]"
| "Map_set k v ((k', v') # m) = (if k' = k then (k, v) # m else (k', v') # Map_set k v m)"

definition Map_delete :: "'k \<Rightarrow> ('k \<times> 'v) list \<Rightarrow> ('k \<times> 'v) list" where
  "Map_delete k m = filter (\<lambda>p. fst p \<noteq> k) m"

datatype CacheStrategy = LRU | LFU | FIFO | TTL_ONLY

text \<open>\<^verbatim>\<open>ExtendedCacheEntry<T>\<close>; times and time spans are integers (milliseconds): a \<^verbatim>\<open>ttl\<close>
  that is not a finite number is not modelled.\<close>

record 'a ExtendedCacheEntry =
  key :: string
  data :: 'a
  timestamp :: int
  ttl :: int
  accessCount :: int
  lastAccessed :: int
  createdAt :: int

record CacheConfig =
  quoteTtl :: int
  maxSize :: int
  cleanupInterval :: int

text \<open>\<^verbatim>\<open>CacheStats\<close>; the two quotients are exact rationals. (\<open>size\<close> is a constant of
  HOL, hence the names \<open>stats_size\<close> and \<open>stats_maxSize\<close>.)\<close>

record CacheStats =
  hits :: int
  misses :: int
  stats_size :: int
  stats_maxSize :: int
  hitRate :: rat
  evictions :: int
  averageAge :: rat

record 'a SmartCacheManager =
  cache :: "(string \<times> 'a ExtendedCacheEntry) list"
  accessOrder :: "string list"
  cache_config :: CacheConfig
  cache_strategy :: CacheStrategy
  stats :: CacheStats

text \<open>The constructor; \<open>config\<close> is the configuration after the defaults
  \<^verbatim>\<open>{quoteTtl: 30000, maxSize: 100, cleanupInterval: 60000}\<close> are filled in. The periodic
  timer it starts calls \<^verbatim>\<open>cleanup\<close>, which is an operation below.\<close>

definition new_SmartCacheManager :: "CacheConfig \<Rightarrow> CacheStrategy \<Rightarrow> 'a SmartCacheManager" where
  "new_SmartCacheManager config strategy =
     \<lparr>cache = [], accessOrder = [], cache_config = config, cache_strategy = strategy,
      stats = \<lparr>hits = 0, misses = 0, stats_size = 0, stats_maxSize = maxSize config,
               hitRate = 0, evictions = 0, averageAge = 0\<rparr>\<rparr>"

definition updateHitRate :: "'a SmartCacheManager \<Rightarrow> 'a SmartCacheManager" where
  "updateHitRate c =
     (let total = hits (stats c) + misses (stats c) in
      c\<lparr>stats := (stats c)\<lparr>hitRate := (if total > 0 then of_int (hits (stats c)) / of_int total
                                       else 0)\<rparr>\<rparr>)"

definition updateStats :: "'a SmartCacheManager \<Rightarrow> 'a SmartCacheManager" where
  "updateStats c = updateHitRate (c\<lparr>stats := (stats c)\<lparr>stats_size := int (length (cache c))\<rparr>\<rparr>)"

text \<open>\<^verbatim>\<open>removeFromAccessOrder\<close>: \<^verbatim>\<open>indexOf\<close> and \<^verbatim>\<open>splice(index, 1)\<close> remove the first
  occurrence; \<^verbatim>\<open>updateAccessOrder\<close> then pushes the key at the end.\<close>

definition removeFromAccessOrder :: "string \<Rightarrow> 'a SmartCacheManager \<Rightarrow> 'a SmartCacheManager" where
  "removeFromAccessOrder k c = c\<lparr>accessOrder := remove1 k (accessOrder c)\<rparr>"

definition updateAccessOrder :: "string \<Rightarrow> 'a SmartCacheManager \<Rightarrow> 'a SmartCacheManager" where
  "updateAccessOrder k c =
     (let c1 = removeFromAccessOrder k c in c1\<lparr>accessOrder := accessOrder c1 @ [k]\<rparr>)"

text \<open>
  The three scans \<^verbatim>\<open>findLeastFrequentlyUsed\<close>, \<^verbatim>\<open>findOldestEntry\<close> and
  \<^verbatim>\<open>findSoonestToExpire\<close> are one loop over the entries with a different measure: the
  running minimum starts at \<^verbatim>\<open>Infinity\<close> (\<open>None\<close>), and an entry replaces the candidate
  when its measure is strictly smaller.
\<close>

fun find_smallest ::
  "('a ExtendedCacheEntry \<Rightarrow> int) \<Rightarrow> (string \<times> 'a ExtendedCacheEntry) list \<Rightarrow>
   int option \<Rightarrow> string option \<Rightarrow> string option" where
  "find_smallest f [] smallest keyToEvict = keyToEvict"
| "find_smallest f ((k, entry) # rest) smallest keyToEvict =
     (if (case smallest of None \<Rightarrow> True | Some s \<Rightarrow> f entry < s)
      then find_smallest f rest (Some (f entry)) (Some k)
      else find_smallest f rest smallest keyToEvict)"

definition findLeastFrequentlyUsed :: "'a SmartCacheManager \<Rightarrow> string option" where
  "findLeastFrequentlyUsed c = find_smallest accessCount (cache c) None None"

definition findOldestEntry :: "'a SmartCacheManager \<Rightarrow> string option" where
  "findOldestEntry c = find_smallest createdAt (cache c) None None"

definition findSoonestToExpire :: "'a SmartCacheManager \<Rightarrow> string option" where
  "findSoonestToExpire c = find_smallest (\<lambda>entry. timestamp entry + ttl entry) (cache c) None None"

text \<open>\<^verbatim>\<open>evictEntry\<close>. \<^verbatim>\<open>this.accessOrder[0]\<close> of an empty array is \<^verbatim>\<open>undefined\<close>, and
  \<^verbatim>\<open>if (keyToEvict)\<close> is false for \<^verbatim>\<open>undefined\<close> and for the empty string.\<close>

definition evictEntry :: "'a SmartCacheManager \<Rightarrow> 'a SmartCacheManager" where
  "evictEntry c =
     (let keyToEvict =
        (case cache_strategy c of
           LRU \<Rightarrow> (case accessOrder c of [] \<Rightarrow> None | k # ks \<Rightarrow> Some k)
         | LFU \<Rightarrow> findLeastFrequentlyUsed c
         | FIFO \<Rightarrow> findOldestEntry c
         | TTL_ONLY \<Rightarrow> findSoonestToExpire c)
      in case keyToEvict of
           None \<Rightarrow> c
         | Some k \<Rightarrow>
             if k \<noteq> []
             then (let c1 = removeFromAccessOrder k (c\<lparr>cache := Map_delete k (cache c)\<rparr>)
                   in c1\<lparr>stats := (stats c1)\<lparr>evictions := evictions (stats c1) + 1\<rparr>\<rparr>)
             else c)"

text \<open>\<^verbatim>\<open>set(key, data, ttl)\<close> at clock reading \<open>now\<close>; \<open>ttl_opt = None\<close> is the omitted
  argument, which defaults to \<^verbatim>\<open>config.quoteTtl\<close>. (The \<^verbatim>\<open>tags\<close> argument is unused.)\<close>

definition cache_set ::
  "string \<Rightarrow> 'a \<Rightarrow> int option \<Rightarrow> int \<Rightarrow> 'a SmartCacheManager \<Rightarrow> 'a SmartCacheManager" where
  "cache_set k v ttl_opt now c =
     (let entry = \<lparr>key = k, data = v, timestamp = now,
                   ttl = (case ttl_opt of None \<Rightarrow> quoteTtl (cache_config c) | Some t \<Rightarrow> t),
                   accessCount = 1, lastAccessed = now, createdAt = now\<rparr>;
          c1 = (if int (length (cache c)) \<ge> maxSize (cache_config c) \<and> \<not> Map_has (cache c) k
                then evictEntry c else c);
          c2 = (if cache_strategy c1 = LRU then updateAccessOrder k c1 else c1)
      in updateStats (c2\<lparr>cache := Map_set k entry (cache c2)\<rparr>))"

text \<open>\<^verbatim>\<open>get(key)\<close> at clock reading \<open>now\<close>: the value (\<open>None\<close> for \<^verbatim>\<open>undefined\<close>, a miss)
  and the manager afterwards.\<close>

definition cache_get ::
  "string \<Rightarrow> int \<Rightarrow> 'a SmartCacheManager \<Rightarrow> 'a option \<times> 'a SmartCacheManager" where
  "cache_get k now c =
     (case Map_get (cache c) k of
        None \<Rightarrow> (None, updateHitRate (c\<lparr>stats := (stats c)\<lparr>misses := misses (stats c) + 1\<rparr>\<rparr>))
      | Some entry \<Rightarrow>
          if now - timestamp entry > ttl entry
          then (let c1 = removeFromAccessOrder k (c\<lparr>cache := Map_delete k (cache c)\<rparr>)
                in (None, updateHitRate (c1\<lparr>stats := (stats c1)\<lparr>misses := misses (stats c1) + 1\<rparr>\<rparr>)))
          else
            (let entry' = entry\<lparr>accessCount := accessCount entry + 1, lastAccessed := now\<rparr>;
                 c1 = c\<lparr>cache := Map_set k entry' (cache c)\<rparr>;
                 c2 = (if cache_strategy c1 = LRU then updateAccessOrder k c1 else c1)
             in (Some (data entry),
                 updateHitRate (c2\<lparr>stats := (stats c2)\<lparr>hits := hits (stats c2) + 1\<rparr>\<rparr>))))"

definition cache_has :: "string \<Rightarrow> int \<Rightarrow> 'a SmartCacheManager \<Rightarrow> bool \<times> 'a SmartCacheManager" where
  "cache_has k now c =
     (case Map_get (cache c) k of
        None \<Rightarrow> (False, c)
      | Some entry \<Rightarrow>
          if now - timestamp entry > ttl entry
          then (False, removeFromAccessOrder k (c\<lparr>cache := Map_delete k (cache c)\<rparr>))
          else (True, c))"

definition cache_delete :: "string \<Rightarrow> 'a SmartCacheManager \<Rightarrow> bool \<times> 'a SmartCacheManager" where
  "cache_delete k c =
     (let deleted = Map_has (cache c) k in
      if deleted
      then (True, updateStats (removeFromAccessOrder k (c\<lparr>cache := Map_delete k (cache c)\<rparr>)))
      else (False, c))"

text \<open>\<^verbatim>\<open>clear()\<close>, with \<^verbatim>\<open>resetStats()\<close> written out.\<close>

definition cache_clear :: "'a SmartCacheManager \<Rightarrow> 'a SmartCacheManager" where
  "cache_clear c =
     c\<lparr>cache := [], accessOrder := [],
       stats := \<lparr>hits = 0, misses = 0, stats_size = 0,
                 stats_maxSize = maxSize (cache_config c),
                 hitRate = 0, evictions = 0, averageAge = 0\<rparr>\<rparr>"

text \<open>\<^verbatim>\<open>deleteByPrefix(prefix)\<close>: the keys are collected first, then deleted one by one.\<close>

fun delete_keys :: "string list \<Rightarrow> nat \<Rightarrow> 'a SmartCacheManager \<Rightarrow> nat \<times> 'a SmartCacheManager" where
  "delete_keys [] deletedCount c = (deletedCount, c)"
| "delete_keys (k # ks) deletedCount c =
     (case cache_delete k c of
        (True, c') \<Rightarrow> delete_keys ks (deletedCount + 1) c'
      | (False, c') \<Rightarrow> delete_keys ks deletedCount c')"

definition deleteByPrefix :: "string \<Rightarrow> 'a SmartCacheManager \<Rightarrow> nat \<times> 'a SmartCacheManager" where
  "deleteByPrefix prefix c =
     delete_keys (filter (\<lambda>k. startsWith k prefix) (map fst (cache c))) 0 c"

text \<open>\<^verbatim>\<open>cleanup()\<close> at clock reading \<open>now\<close>: the expired keys are collected, then removed.\<close>

fun remove_keys :: "string list \<Rightarrow> 'a SmartCacheManager \<Rightarrow> 'a SmartCacheManager" where
  "remove_keys [] c = c"
| "remove_keys (k # ks) c =
     remove_keys ks (removeFromAccessOrder k (c\<lparr>cache := Map_delete k (cache c)\<rparr>))"

definition cleanup :: "int \<Rightarrow> 'a SmartCacheManager \<Rightarrow> nat \<times> 'a SmartCacheManager" where
  "cleanup now c =
     (let expiredKeys =
            map fst (filter (\<lambda>(k, entry). now - timestamp entry > ttl entry) (cache c))
      in (length expiredKeys, updateStats (remove_keys expiredKeys c)))"

text \<open>A use of the cache: a sequence of calls of its public mutating methods, each with
  the clock reading at which it runs.\<close>

datatype 'a cache_op =
    OpSet string 'a "int option" int
  | OpGet string int
  | OpHas string int
  | OpDelete string
  | OpClear
  | OpDeleteByPrefix string
  | OpCleanup int

fun apply_op :: "'a cache_op \<Rightarrow> 'a SmartCacheManager \<Rightarrow> 'a SmartCacheManager" where
  "apply_op (OpSet k v ttl_opt now) c = cache_set k v ttl_opt now c"
| "apply_op (OpGet k now) c = snd (cache_get k now c)"
| "apply_op (OpHas k now) c = snd (cache_has k now c)"
| "apply_op (OpDelete k) c = snd (cache_delete k c)"
| "apply_op OpClear c = cache_clear c"
| "apply_op (OpDeleteByPrefix prefix) c = snd (deleteByPrefix prefix c)"
| "apply_op (OpCleanup now) c = snd (cleanup now c)"

fun apply_ops :: "'a cache_op list \<Rightarrow> 'a SmartCacheManager \<Rightarrow> 'a SmartCacheManager" where
  "apply_ops [] c = c"
| "apply_ops (op # ops) c = apply_ops ops (apply_op op c)"

text \<open>The keys a sequence of calls stores under.\<close>

fun set_keys :: "'a cache_op list \<Rightarrow> string list" where
  "set_keys [] = []"
| "set_keys (OpSet k v ttl_opt now # ops) = k # set_keys ops"
| "set_keys (other # ops) = set_keys ops"

text \<open>
  The representation invariant of a manager: the map has one pair per key, no key is the
  empty string, and under the LRU strategy \<^verbatim>\<open>accessOrder\<close> lists exactly the keys of the
  map, each once.
\<close>

definition cache_keys :: "'a SmartCacheManager \<Rightarrow> string list" where
  "cache_keys c = map fst (cache c)"

definition cache_wf :: "'a SmartCacheManager \<Rightarrow> bool" where
  "cache_wf c =
     (distinct (cache_keys c) \<and> [] \<notin> set (cache_keys c) \<and>
      (cache_strategy c = LRU \<longrightarrow>
         set (accessOrder c) = set (cache_keys c) \<and> distinct (accessOrder c)))"

text \<open>\<^verbatim>\<open>DEFAULT_CACHE_CONFIG\<close> of \<^verbatim>\<open>config.ts\<close>, also the configuration of the exported
  \<^verbatim>\<open>quoteCacheManager\<close>.\<close>

definition DEFAULT_CACHE_CONFIG :: CacheConfig where
  "DEFAULT_CACHE_CONFIG = \<lparr>quoteTtl = 30000, maxSize = 100, cleanupInterval = 60000\<rparr>"

section \<open>The swap request and response (src/lib/dex/types.ts)\<close>


record SwapExecuteResponse =
  swap_success :: bool
  transactionHash :: "string option"
  explorerUrl :: "string option"
  fromAmount :: string
  toAmount :: string
  actualRate :: "string option"
  gasUsed :: "string option"
  gasFee :: "string option"
  errorMessage :: "string option"
  errorCode :: "SwapErrorCode option"

text \<open>The value of the string enum \<^verbatim>\<open>SwapErrorCode\<close>.\<close>

fun SwapErrorCode_text :: "SwapErrorCode \<Rightarrow> string" where
  "SwapErrorCode_text INSUFFICIENT_BALANCE = ''INSUFFICIENT_BALANCE''"
| "SwapErrorCode_text INSUFFICIENT_ALLOWANCE = ''INSUFFICIENT_ALLOWANCE''"
| "SwapErrorCode_text SLIPPAGE_EXCEEDED = ''SLIPPAGE_EXCEEDED''"
| "SwapErrorCode_text DEADLINE_EXCEEDED = ''DEADLINE_EXCEEDED''"
| "SwapErrorCode_text LIQUIDITY_INSUFFICIENT = ''LIQUIDITY_INSUFFICIENT''"
| "SwapErrorCode_text PRICE_IMPACT_TOO_HIGH = ''PRICE_IMPACT_TOO_HIGH''"
| "SwapErrorCode_text NETWORK_ERROR = ''NETWORK_ERROR''"
| "SwapErrorCode_text API_ERROR = ''API_ERROR''"
| "SwapErrorCode_text GAS_ESTIMATION_FAILED = ''GAS_ESTIMATION_FAILED''"
| "SwapErrorCode_text TRANSACTION_FAILED = ''TRANSACTION_FAILED''"
| "SwapErrorCode_text INVALID_PARAMETERS = ''INVALID_PARAMETERS''"
| "SwapErrorCode_text UNKNOWN_ERROR = ''UNKNOWN_ERROR''"

section \<open>The ledger and the settlement route (src/routes/x402.ts)\<close>

subsection \<open>JavaScript values and objects\<close>

text \<open>
  The records the route builds are object literals with spreads. An object is its list
  of properties in insertion order (the association-list map above); a later property of
  a literal with the same name overwrites the value of the earlier one. Numbers are exact
  rationals; \<open>JDate t\<close> stands for the ISO text \<^verbatim>\<open>new Date(t).toISOString()\<close> of the
  instant \<open>t\<close> (milliseconds).
\<close>

datatype js_value =
    JUndefined
  | JNull
  | JBool bool
  | JNum rat
  | JStr string
  | JDate int
  | JObj "(string \<times> js_value) list"

type_synonym js_object = "(string \<times> js_value) list"

text \<open>An object literal, given by its properties in source order with the spreads
  expanded in place.\<close>

definition object_literal :: "(string \<times> js_value) list \<Rightarrow> js_object" where
  "object_literal props = foldl (\<lambda>obj (k, v). Map_set k v obj) [] props"

text \<open>Reading a property: \<^verbatim>\<open>undefined\<close> when it is absent.\<close>

definition get_prop :: "js_object \<Rightarrow> string \<Rightarrow> js_value" where
  "get_prop obj k = (case Map_get obj k of None \<Rightarrow> JUndefined | Some v \<Rightarrow> v)"

definition opt_str :: "string option \<Rightarrow> js_value" where
  "opt_str s = (case s of None \<Rightarrow> JUndefined | Some t \<Rightarrow> JStr t)"

text \<open>A \<^verbatim>\<open>SwapExecuteResponse\<close> as the object it is.\<close>

definition response_object :: "SwapExecuteResponse \<Rightarrow> js_value" where
  "response_object r =
     JObj [(''success'', JBool (swap_success r)),
           (''transactionHash'', opt_str (transactionHash r)),
           (''explorerUrl'', opt_str (explorerUrl r)),
           (''fromAmount'', JStr (fromAmount r)),
           (''toAmount'', JStr (toAmount r)),
           (''actualRate'', opt_str (actualRate r)),
           (''gasUsed'', opt_str (gasUsed r)),
           (''gasFee'', opt_str (gasFee r)),
           (''errorMessage'', opt_str (errorMessage r)),
           (''errorCode'', opt_str (map_option SwapErrorCode_text (errorCode r)))]"

subsection \<open>The ledger store\<close>

text \<open>
  The Redis keys the route uses, by family:
  \<^item> \<^verbatim>\<open>mint:{templateId}:count\<close>, an integer (\<open>None\<close>: the key is absent);
  \<^item> \<^verbatim>\<open>mint:records:{address}\<close>, a list of mint records, newest first;
  \<^item> \<^verbatim>\<open>payment:nonce:{nonce}\<close>, the payment record with the instant at which the key
    expires;
  \<^item> \<^verbatim>\<open>template:config:{templateId}\<close>, a hash, of which the code reads
    \<^verbatim>\<open>max_mint_count\<close> (as the integer its text parses to).
  Every command is atomic and is taken to succeed (a store that fails is not modelled).
  Records are stored as the objects themselves, not as their JSON text.
\<close>

record TemplateConfig =
  template_id :: string
  max_mint_count :: int
  token_name :: string
  token_symbol :: string
  token_address :: string
  mint_price :: string

record Ledger =
  mint_count :: "string \<rightharpoonup> int"
  mint_records :: "string \<Rightarrow> js_object list"
  payment_nonce :: "string \<rightharpoonup> int \<times> js_object"
  template_config :: "string \<rightharpoonup> TemplateConfig"

definition initializeTemplateConfig :: "string \<Rightarrow> Ledger \<Rightarrow> Ledger" where
  "initializeTemplateConfig templateId l =
     (if template_config l templateId = None
      then l\<lparr>template_config := (template_config l)(templateId \<mapsto>
              \<lparr>template_id = templateId, max_mint_count = 10, token_name = ''x402'',
               token_symbol = ''X402'',
               token_address = ''0x74b7f16337b8972027f6196a17a631ac6de26d22'',
               mint_price = ''1''\<rparr>)\<rparr>
      else l)"

definition getCurrentMintCount :: "string \<Rightarrow> Ledger \<Rightarrow> int" where
  "getCurrentMintCount templateId l =
     (case mint_count l templateId of None \<Rightarrow> 0 | Some n \<Rightarrow> n)"

text \<open>\<^verbatim>\<open>INCR\<close>: an absent key counts as 0; the new value is returned.\<close>

definition incrementMintCount :: "string \<Rightarrow> Ledger \<Rightarrow> int \<times> Ledger" where
  "incrementMintCount templateId l =
     (let n = (case mint_count l templateId of None \<Rightarrow> 0 | Some n \<Rightarrow> n) + 1
      in (n, l\<lparr>mint_count := (mint_count l)(templateId \<mapsto> n)\<rparr>))"

record LimitCheck =
  canMint :: bool
  remaining :: int
  isCompleted :: bool
  currentCount :: int
  maxCount :: int

definition checkMintLimit :: "string \<Rightarrow> Ledger \<Rightarrow> LimitCheck \<times> Ledger" where
  "checkMintLimit templateId l =
     (let l1 = initializeTemplateConfig templateId l;
          maxC = (case template_config l1 templateId of
                    None \<Rightarrow> 10 | Some config \<Rightarrow> max_mint_count config);
          cur = getCurrentMintCount templateId l1
      in (\<lparr>canMint = (cur < maxC), remaining = max 0 (maxC - cur),
           isCompleted = (cur \<ge> maxC), currentCount = cur, maxCount = maxC\<rparr>, l1))"

text \<open>\<^verbatim>\<open>EXISTS payment:nonce:{nonce}\<close> at the instant \<open>now\<close>: the key was set and has
  not expired.\<close>

definition checkNonceExists :: "string \<Rightarrow> int \<Rightarrow> Ledger \<Rightarrow> bool" where
  "checkNonceExists n now l =
     (case payment_nonce l n of None \<Rightarrow> False | Some (expires, record) \<Rightarrow> now < expires)"

text \<open>\<^verbatim>\<open>savePaymentRecord\<close>: \<^verbatim>\<open>SETEX\<close> with 86400 seconds, whatever the key holds.\<close>

definition savePaymentRecord ::
  "string \<Rightarrow> (string \<times> js_value) list \<Rightarrow> int \<Rightarrow> Ledger \<Rightarrow> js_object \<times> Ledger" where
  "savePaymentRecord n paymentData now l =
     (let recordData = object_literal
            (paymentData @ [(''created_at'', JDate now), (''status'', JStr ''paid'')])
      in (recordData,
          l\<lparr>payment_nonce := (payment_nonce l)(n \<mapsto> (now + 86400 * 1000, recordData))\<rparr>))"

text \<open>\<^verbatim>\<open>saveMintRecord\<close>: the literal
  \<^verbatim>\<open>{ id: Date.now(), ...mintData, created_at: ..., status: 'success' }\<close>, then
  \<^verbatim>\<open>LPUSH\<close> and \<^verbatim>\<open>LTRIM 0 49\<close>.\<close>

definition saveMintRecord ::
  "string \<Rightarrow> (string \<times> js_value) list \<Rightarrow> int \<Rightarrow> Ledger \<Rightarrow> js_object \<times> Ledger" where
  "saveMintRecord address mintData now l =
     (let mintRecord = object_literal
            ([(''id'', JNum (of_int now))] @ mintData @
             [(''created_at'', JDate now), (''status'', JStr ''success'')])
      in (mintRecord,
          l\<lparr>mint_records := (mint_records l)(address := take 50 (mintRecord # mint_records l address))\<rparr>))"

subsection \<open>The route \<^verbatim>\<open>POST /verify\<close>\<close>

text \<open>
  The request after \<^verbatim>\<open>x402RequestSchema.parse\<close> and the permission middleware (both outside
  the model): the fields of the authorization the handler reads, \<^verbatim>\<open>value\<close> as the number
  \<^verbatim>\<open>parseFloat\<close> gives, and \<^verbatim>\<open>paymentRequirements.extra?.templateId\<close>.
\<close>

record Request =
  nonce :: string
  from_address :: string
  to_address :: string
  auth_value :: rat
  templateId :: "string option"

text \<open>
  What the world outside the ledger does for one request: the reading of the clock, what
  \<^verbatim>\<open>okxClient.settle\<close> returns (the \<^verbatim>\<open>success\<close> flags of its results) or the message of the
  error it throws, the environment variable \<^verbatim>\<open>X402_PAY_TO\<close>, and what creating the swap
  service and calling \<^verbatim>\<open>executeSwap\<close> returns or throws.
\<close>

record Env =
  clock :: int
  settle_result :: "string + bool list"
  X402_PAY_TO :: "string option"
  swap_result :: "string + SwapExecuteResponse"

text \<open>The ledger together with a log of the effects of the requests, in order: calls of
  the settlement provider, payment records written, swaps attempted (each with the nonce
  of its request).\<close>

datatype effect = SettleCalled string | PaymentSaved string | SwapCalled string

record World =
  ledger :: Ledger
  effects :: "effect list"

text \<open>The responses of the handler: the error kinds with what they carry, and the
  success response with \<^verbatim>\<open>payment_record_id\<close> and \<^verbatim>\<open>mint_record\<close>.\<close>

datatype VerifyResponse =
    DUPLICATE_NONCE
  | MINT_LIMIT_REACHED int int
  | SETTLEMENT_FAILED
  | MINT_FAILED string js_value
  | PAYMENT_ERROR string
  | SUCCESS js_value "js_object option"

definition templateId_value :: "Request \<Rightarrow> js_value" where
  "templateId_value req = opt_str (templateId req)"

text \<open>Step 2, the quota gate of a \<^verbatim>\<open>token-mint\<close> request: the response that ends the
  request, if any, and the ledger (the template configuration may have been created).\<close>

definition limit_gate :: "Request \<Rightarrow> Ledger \<Rightarrow> VerifyResponse option \<times> Ledger" where
  "limit_gate req l =
     (if templateId req = Some ''token-mint'' then
        (let (limitCheck, l1) = checkMintLimit ''token-mint'' l in
         if \<not> canMint limitCheck \<or> isCompleted limitCheck
         then (Some (MINT_LIMIT_REACHED (currentCount limitCheck) (maxCount limitCheck)), l1)
         else (None, l1))
      else (None, l))"

text \<open>Step 4: the payment record.\<close>

definition payment_data :: "Request \<Rightarrow> (string \<times> js_value) list" where
  "payment_data req =
     [(''nonce'', JStr (nonce req)),
      (''from_address'', JStr (from_address req)),
      (''to_address'', JStr (to_address req)),
      (''value'', JNum (auth_value req)),
      (''template_id'', templateId_value req)]"

text \<open>Steps 6 and 7: the two calls of \<^verbatim>\<open>saveMintRecord\<close>, after a swap that returned and in
  the \<^verbatim>\<open>catch (swapError)\<close> block.\<close>

definition mint_data_swapped :: "Env \<Rightarrow> Request \<Rightarrow> SwapExecuteResponse \<Rightarrow> (string \<times> js_value) list" where
  "mint_data_swapped env req swapResult =
     [(''payment_id'', JNum (of_int (clock env))),
      (''template_id'', templateId_value req),
      (''user_address'', JStr (from_address req)),
      (''mint_count'', JNum 1),
      (''tx_hash'', opt_str (transactionHash swapResult)),
      (''received_amount'', JNum (auth_value req / 1000000)),
      (''swap_result'', response_object swapResult)]"

definition mint_data_failed :: "Env \<Rightarrow> Request \<Rightarrow> string \<Rightarrow> (string \<times> js_value) list" where
  "mint_data_failed env req message =
     [(''payment_id'', JNum (of_int (clock env))),
      (''template_id'', templateId_value req),
      (''user_address'', JStr (from_address req)),
      (''mint_count'', JNum 1),
      (''status'', JStr ''failed''),
      (''error_message'', JStr message),
      (''received_amount'', JNum (auth_value req / 1000000))]"

definition mint_record_summary :: "js_object \<Rightarrow> js_object" where
  "mint_record_summary mintRecord =
     [(''mint_record_id'', get_prop mintRecord ''id''),
      (''mint_count'', get_prop mintRecord ''mint_count''),
      (''tx_hash'', get_prop mintRecord ''tx_hash'')]"

definition save_mint_leg ::
  "Env \<Rightarrow> Request \<Rightarrow> js_object \<Rightarrow> string + SwapExecuteResponse \<Rightarrow> World \<Rightarrow>
   VerifyResponse \<times> World" where
  "save_mint_leg env req paymentRecord outcome w =
     (case outcome of
        Inr swapResult \<Rightarrow>
          (let (mintRecord, l1) =
                 saveMintRecord (from_address req) (mint_data_swapped env req swapResult)
                   (clock env) (ledger w)
           in (SUCCESS (get_prop paymentRecord ''nonce'') (Some (mint_record_summary mintRecord)),
               w\<lparr>ledger := l1\<rparr>))
      | Inl message \<Rightarrow>
          (let (mintRecord, l1) =
                 saveMintRecord (from_address req) (mint_data_failed env req message)
                   (clock env) (ledger w)
           in (MINT_FAILED message (get_prop paymentRecord ''nonce''), w\<lparr>ledger := l1\<rparr>)))"

text \<open>Step 5 onwards, for a \<^verbatim>\<open>token-mint\<close> request: the counter is incremented (the new
  count is only logged), then the receiving wallet is read, then the swap runs.\<close>

definition wallet_missing :: "Env \<Rightarrow> bool" where
  "wallet_missing env = (case X402_PAY_TO env of None \<Rightarrow> True | Some a \<Rightarrow> a = [])"

definition mint_leg :: "Env \<Rightarrow> Request \<Rightarrow> js_object \<Rightarrow> World \<Rightarrow> VerifyResponse \<times> World" where
  "mint_leg env req paymentRecord w =
     (let (newCount, l1) = incrementMintCount ''token-mint'' (ledger w);
          w1 = w\<lparr>ledger := l1\<rparr>
      in if wallet_missing env
         then (MINT_FAILED ''receiving wallet address is not configured''
                 (get_prop paymentRecord ''nonce''), w1)
         else save_mint_leg env req paymentRecord (swap_result env)
                (w1\<lparr>effects := effects w1 @ [SwapCalled (nonce req)]\<rparr>))"

text \<open>Steps 3 and 4: the settlement call, then the payment record.\<close>

definition settle_leg :: "Env \<Rightarrow> Request \<Rightarrow> World \<Rightarrow> VerifyResponse \<times> World" where
  "settle_leg env req w =
     (let w1 = w\<lparr>effects := effects w @ [SettleCalled (nonce req)]\<rparr> in
      case settle_result env of
        Inl message \<Rightarrow> (PAYMENT_ERROR message, w1)
      | Inr settleResult \<Rightarrow>
          if \<not> (True \<in> set settleResult) then (SETTLEMENT_FAILED, w1)
          else
            (let (paymentRecord, l2) =
                   savePaymentRecord (nonce req) (payment_data req) (clock env) (ledger w1);
                 w2 = w1\<lparr>ledger := l2, effects := effects w1 @ [PaymentSaved (nonce req)]\<rparr>
             in if templateId req = Some ''token-mint''
                then mint_leg env req paymentRecord w2
                else (SUCCESS (get_prop paymentRecord ''nonce'') None, w2)))"

text \<open>The handler, run from its first line to its response with no other request in
  between.\<close>

definition verify :: "Env \<Rightarrow> Request \<Rightarrow> World \<Rightarrow> VerifyResponse \<times> World" where
  "verify env req w =
     (if checkNonceExists (nonce req) (clock env) (ledger w) then (DUPLICATE_NONCE, w)
      else
        (case limit_gate req (ledger w) of
           (Some response, l1) \<Rightarrow> (response, w\<lparr>ledger := l1\<rparr>)
         | (None, l1) \<Rightarrow> settle_leg env req (w\<lparr>ledger := l1\<rparr>)))"

subsection \<open>Concurrent requests\<close>

text \<open>
  The handler is an \<^verbatim>\<open>async\<close> function: it runs without interruption between two
  \<^verbatim>\<open>await\<close>s, and at each \<^verbatim>\<open>await\<close> the handler of another request may run. A request in
  flight is at one of the following points; a step takes it to the next one. Each step is
  a stretch of the handler that ends at an \<^verbatim>\<open>await\<close> (consecutive ledger commands of one
  helper are taken together, so every schedule of steps is a schedule of the code):
  \<^item> \<open>AtNonceCheck\<close>: before \<^verbatim>\<open>checkNonceExists\<close>;
  \<^item> \<open>AtLimitCheck\<close>: before \<^verbatim>\<open>checkMintLimit\<close>;
  \<^item> \<open>AtSettle\<close>: before \<^verbatim>\<open>okxClient.settle\<close>;
  \<^item> \<open>AtSavePayment\<close>: settlement succeeded, before \<^verbatim>\<open>savePaymentRecord\<close>;
  \<^item> \<open>AtIncrement\<close>: before \<^verbatim>\<open>incrementMintCount\<close>;
  \<^item> \<open>AtSwap\<close>: before the swap;
  \<^item> \<open>AtSaveMint\<close>: the swap has returned or thrown, before \<^verbatim>\<open>saveMintRecord\<close>;
  \<^item> \<open>Responded\<close>: the response is sent.
\<close>

datatype point =
    AtNonceCheck
  | AtLimitCheck
  | AtSettle
  | AtSavePayment
  | AtIncrement js_object
  | AtSwap js_object
  | AtSaveMint js_object "string + SwapExecuteResponse"
  | Responded VerifyResponse

definition step :: "Env \<Rightarrow> Request \<Rightarrow> point \<Rightarrow> World \<Rightarrow> point \<times> World" where
  "step env req p w =
     (case p of
        AtNonceCheck \<Rightarrow>
          if checkNonceExists (nonce req) (clock env) (ledger w)
          then (Responded DUPLICATE_NONCE, w)
          else if templateId req = Some ''token-mint'' then (AtLimitCheck, w)
          else (AtSettle, w)
      | AtLimitCheck \<Rightarrow>
          (case limit_gate req (ledger w) of
             (Some response, l1) \<Rightarrow> (Responded response, w\<lparr>ledger := l1\<rparr>)
           | (None, l1) \<Rightarrow> (AtSettle, w\<lparr>ledger := l1\<rparr>))
      | AtSettle \<Rightarrow>
          (let w1 = w\<lparr>effects := effects w @ [SettleCalled (nonce req)]\<rparr> in
           case settle_result env of
             Inl message \<Rightarrow> (Responded (PAYMENT_ERROR message), w1)
           | Inr settleResult \<Rightarrow>
               if \<not> (True \<in> set settleResult) then (Responded SETTLEMENT_FAILED, w1)
               else (AtSavePayment, w1))
      | AtSavePayment \<Rightarrow>
          (let (paymentRecord, l2) =
                 savePaymentRecord (nonce req) (payment_data req) (clock env) (ledger w);
               w2 = w\<lparr>ledger := l2, effects := effects w @ [PaymentSaved (nonce req)]\<rparr>
           in if templateId req = Some ''token-mint''
              then (AtIncrement paymentRecord, w2)
              else (Responded (SUCCESS (get_prop paymentRecord ''nonce'') None), w2))
      | AtIncrement paymentRecord \<Rightarrow>
          (let (newCount, l1) = incrementMintCount ''token-mint'' (ledger w);
               w1 = w\<lparr>ledger := l1\<rparr>
           in if wallet_missing env
              then (Responded (MINT_FAILED ''receiving wallet address is not configured''
                      (get_prop paymentRecord ''nonce'')), w1)
              else (AtSwap paymentRecord, w1))
      | AtSwap paymentRecord \<Rightarrow>
          (AtSaveMint paymentRecord (swap_result env),
           w\<lparr>effects := effects w @ [SwapCalled (nonce req)]\<rparr>)
      | AtSaveMint paymentRecord outcome \<Rightarrow>
          (case save_mint_leg env req paymentRecord outcome w of
             (response, w1) \<Rightarrow> (Responded response, w1))
      | Responded response \<Rightarrow> (Responded response, w))"

text \<open>Requests in flight, each with its inputs and its point, over one world. A schedule
  is the list of the requests' indices in the order in which they take their steps.\<close>

type_synonym flight = "Env \<times> Request \<times> point"

definition sched :: "nat \<Rightarrow> flight list \<times> World \<Rightarrow> flight list \<times> World" where
  "sched i sys =
     (case sys of (fs, w) \<Rightarrow>
        if i < length fs then
          (case fs ! i of (env, req, p) \<Rightarrow>
             (case step env req p w of (p', w') \<Rightarrow> (fs[i := (env, req, p')], w')))
        else (fs, w))"

fun run :: "nat list \<Rightarrow> flight list \<times> World \<Rightarrow> flight list \<times> World" where
  "run [] sys = sys"
| "run (i # is) sys = run is (sched i sys)"

definition arrive :: "(Env \<times> Request) list \<Rightarrow> World \<Rightarrow> flight list \<times> World" where
  "arrive reqs w = (map (\<lambda>(env, req). (env, req, AtNonceCheck)) reqs, w)"

definition responses :: "flight list \<times> World \<Rightarrow> VerifyResponse option list" where
  "responses sys =
     map (\<lambda>(env, req, p). case p of Responded r \<Rightarrow> Some r | _ \<Rightarrow> None) (fst sys)"

text \<open>One request alone in flight, taking \<open>n\<close> steps.\<close>

fun steps :: "nat \<Rightarrow> Env \<Rightarrow> Request \<Rightarrow> point \<Rightarrow> World \<Rightarrow> point \<times> World" where
  "steps 0 env req p w = (p, w)"
| "steps (Suc n) env req p w = (case step env req p w of (p', w') \<Rightarrow> steps n env req p' w')"

subsection \<open>A scenario\<close>

text \<open>
  The deployment the end-to-end scenarios speak of: template \<^verbatim>\<open>token-mint\<close> with
  \<open>n\<close> mints counted so far, no template configuration stored yet (it is created on first
  use, with \<^verbatim>\<open>max_mint_count\<close> 10), no payment and no mint record; a payer \<^verbatim>\<open>0xfrom\<close>
  paying 1 USDC (1000000 units) with a given nonce; a provider that settles; and a swap
  with a given outcome.
\<close>

definition scenario_ledger :: "int \<Rightarrow> Ledger" where
  "scenario_ledger n =
     \<lparr>mint_count = [''token-mint'' \<mapsto> n], mint_records = (\<lambda>address. []),
      payment_nonce = Map.empty, template_config = Map.empty\<rparr>"

definition scenario_world :: "int \<Rightarrow> World" where
  "scenario_world n = \<lparr>ledger = scenario_ledger n, effects = []\<rparr>"

definition scenario_request :: "string \<Rightarrow> Request" where
  "scenario_request n =
     \<lparr>nonce = n, from_address = ''0xfrom'', to_address = ''0xto'',
      auth_value = 1000000, templateId = Some ''token-mint''\<rparr>"

definition swapped :: SwapExecuteResponse where
  "swapped =
     \<lparr>swap_success = True, transactionHash = Some ''0xhash'', explorerUrl = Some ''url'',
      fromAmount = ''1000000'', toAmount = ''5'', actualRate = Some ''0.000005'',
      gasUsed = Some ''21000'', gasFee = Some ''1'', errorMessage = None, errorCode = None\<rparr>"

definition not_swapped :: SwapExecuteResponse where
  "not_swapped =
     \<lparr>swap_success = False, transactionHash = None, explorerUrl = None,
      fromAmount = ''1000000'', toAmount = ''0'', actualRate = None,
      gasUsed = None, gasFee = None,
      errorMessage = Some ''network connection error'', errorCode = Some NETWORK_ERROR\<rparr>"

definition scenario_env :: "int \<Rightarrow> string + SwapExecuteResponse \<Rightarrow> Env" where
  "scenario_env t outcome =
     \<lparr>clock = t, settle_result = Inr [True], X402_PAY_TO = Some ''0xpay'',
      swap_result = outcome\<rparr>"

section \<open>The swap service (src/lib/dex/DexSwapService.ts, method executeSwap)\<close>

subsection \<open>Errors: the factory and the user-facing text\<close>





subsection \<open>The service, its collaborators and its metrics\<close>

record TokenInfo =
  token_addr :: string
  token_sym :: string
  token_nm :: string
  token_decimals :: int

record ValidationResult =
  isValid :: bool
  errors :: "string list"
  warnings :: "string list"

text \<open>\<^verbatim>\<open>TransactionData\<close>; a field that is missing is the empty string (both are falsy).\<close>

record TransactionData =
  tx_to :: string
  tx_data :: string
  tx_value :: string
  tx_gas :: string
  tx_gasPrice :: string

text \<open>What the aggregator's swap endpoint answers (\<^verbatim>\<open>swapData.data?.[0] || swapData\<close>).\<close>

record SwapApiResult =
  api_tx :: "TransactionData option"
  api_to :: string
  api_data :: string
  api_value :: string
  api_gas :: string
  api_gasPrice :: string

text \<open>Of a quote, \<^verbatim>\<open>executeSwap\<close> reads \<^verbatim>\<open>toToken.amount\<close> and \<^verbatim>\<open>exchangeRate\<close>; of a
  receipt, the status and the decimal texts of \<^verbatim>\<open>gasUsed\<close> and \<^verbatim>\<open>fee\<close>.\<close>

record Quote =
  quote_toAmount :: string
  quote_exchangeRate :: string

record Receipt =
  receipt_status :: "int option"
  receipt_gasUsed :: "string option"
  receipt_fee :: "string option"

text \<open>
  Everything \<^verbatim>\<open>executeSwap\<close> calls outside its own class, as what the call returns or
  throws (\<open>Inl\<close>) this time: the wallet (present when \<^verbatim>\<open>XLAYER_PRIVATE_KEY\<close> is set), the
  token table of the configuration manager, the validator, \<^verbatim>\<open>getQuote\<close>, the ERC-20
  approval, the aggregator, the wallet's \<^verbatim>\<open>sendTransaction\<close>, the provider's
  \<^verbatim>\<open>waitForTransaction\<close>, the built-in \<^verbatim>\<open>BigInt\<close> on a text (\<open>None\<close>: it throws a
  \<^verbatim>\<open>SyntaxError\<close>, whose message is \<open>bigint_message\<close>), the time the call took, and the ISO
  text of the current time. A thrown value is an \<^verbatim>\<open>Error\<close> object, as the casts
  \<^verbatim>\<open>error as Error\<close> of the source take it to be. The event emitter and the error tracker,
  which \<^verbatim>\<open>executeSwap\<close> only writes to and which catch what their listeners throw, are left
  out.
\<close>

record Collaborators =
  wallet :: bool
  getToken :: "string \<Rightarrow> string \<Rightarrow> TokenInfo option"
  validateCompleteSwapRequest :: "js_error + ValidationResult"
  getQuote :: "js_error + Quote"
  validateAllowance :: "js_error + ValidationResult"
  approve :: "js_error + unit"
  getSwapTx :: "js_error + SwapApiResult"
  validateTransactionData :: "TransactionData \<Rightarrow> ValidationResult"
  sendTransaction :: "js_error + string"
  waitForTransaction :: "js_error + Receipt option"
  BigInt :: "string \<Rightarrow> int option"
  bigint_message :: string
  elapsed :: int
  now_text :: string

record SwapMetrics =
  totalSwaps :: int
  successfulSwaps :: int
  failedSwaps :: int
  totalVolume :: int
  averageGasUsed :: int
  averageExecutionTime :: rat
  errorBreakdown :: "SwapErrorCode \<Rightarrow> int"


text \<open>A step of the \<^verbatim>\<open>try\<close> block either throws or yields a value, and leaves the metrics
  in a new state; \<open>and_then\<close> runs the next step unless the first threw.\<close>

type_synonym 'a attempt_of = "SwapMetrics \<Rightarrow> (js_error + 'a) \<times> SwapMetrics"


definition returns :: "'a \<Rightarrow> 'a attempt_of" where
  "returns a s = (Inr a, s)"

definition throws :: "js_error \<Rightarrow> 'a attempt_of" where
  "throws e s = (Inl e, s)"

definition awaited :: "js_error + 'a \<Rightarrow> 'a attempt_of" where
  "awaited outcome s = (outcome, s)"

















subsection \<open>\<^verbatim>\<open>executeSwap\<close>\<close>







section \<open>Properties of the circuit breaker\<close>

lemma execute_HALF_OPEN_failure:
  "state cb = HALF_OPEN \<Longrightarrow>
   execute now (Inl e) now' cb = (Inl e, onFailure now' cb, True)"
  by (simp add: execute_def)

lemma execute_CLOSED_success:
  "state cb = CLOSED \<Longrightarrow>
   execute now (Inr r) now' cb = (Inr r, onSuccess cb, True)"
  by (simp add: execute_def)

text \<open>An open breaker has reached its failure threshold: this holds of a new breaker
  and is kept by every call. So the trial call that takes the breaker from open to
  half-open does reopen it when it fails.\<close>

lemma execute_keeps_open_threshold:
  assumes "state cb = OPEN \<longrightarrow> failureCount cb \<ge> failureThreshold cb"
  shows "state (fst (snd (execute now outcome now' cb))) = OPEN \<longrightarrow>
         failureCount (fst (snd (execute now outcome now' cb)))
           \<ge> failureThreshold (fst (snd (execute now outcome now' cb)))"
  using assms
  by (cases outcome) (auto simp: execute_def onFailure_def onSuccess_def Let_def)

lemma execute_all_keeps_open_threshold:
  assumes "state cb = OPEN \<longrightarrow> failureCount cb \<ge> failureThreshold cb"
  shows "state (execute_all calls cb) = OPEN \<longrightarrow>
         failureCount (execute_all calls cb) \<ge> failureThreshold (execute_all calls cb)"
  using assms
proof (induction calls arbitrary: cb)
  case Nil
  then show ?case by simp
next
  case (Cons call calls)
  obtain now outcome now' where c: "call = (now, outcome, now')" by (cases call)
  from Cons.IH[OF execute_keeps_open_threshold[OF Cons.prems, of now outcome now']]
  show ?case by (simp add: c)
qed

lemma trial_call_failure_reopens:
  assumes "cb = execute_all calls (new_CircuitBreaker ft rt st)"
    and "state cb = OPEN" and "now - lastFailureTime cb \<ge> recoveryTimeMs cb"
  shows "state (fst (snd (execute now (Inl e) now' cb))) = OPEN"
proof -
  have "state cb = OPEN \<longrightarrow> failureCount cb \<ge> failureThreshold cb"
    unfolding assms(1)
    by (rule execute_all_keeps_open_threshold) (simp add: new_CircuitBreaker_def)
  with assms(2,3) show ?thesis
    by (simp add: execute_def onFailure_def Let_def)
qed

text \<open>
  C5, as stated, fails. The breaker of \<^verbatim>\<open>DexRetryManager\<close> (thresholds 5 and 2, recovery
  60000 ms) is opened by five failures, becomes half-open on the call made 60000 ms
  later, which succeeds (so \<^verbatim>\<open>failureCount\<close> is reset to 0 and one more success is needed
  to close); the next call fails, and the breaker is still half-open, not open.
\<close>

theorem C5_half_open_failure_counterexample:
  "execute_all
     [(0, Inl (PlainError ''down''), 1), (1, Inl (PlainError ''down''), 2),
      (2, Inl (PlainError ''down''), 3), (3, Inl (PlainError ''down''), 4),
      (4, Inl (PlainError ''down''), 5), (60005, Inr (), 60006)]
     (new_CircuitBreaker 5 60000 2)
   = \<lparr>failureCount = 0, successCount = 1, lastFailureTime = 5, state = HALF_OPEN,
      failureThreshold = 5, recoveryTimeMs = 60000, successThreshold = 2\<rparr>
   \<and> state (fst (snd (execute 60007 (Inl (PlainError ''down'') :: js_error + unit) 60008
        \<lparr>failureCount = 0, successCount = 1, lastFailureTime = 5, state = HALF_OPEN,
         failureThreshold = 5, recoveryTimeMs = 60000, successThreshold = 2\<rparr>))) \<noteq> OPEN"
  by (simp add: new_CircuitBreaker_def execute_def onFailure_def onSuccess_def)

text \<open>
  C5, amended: a failure of the executed operation while the breaker is half-open
  increments \<^verbatim>\<open>failureCount\<close> and sends the breaker back to open exactly when the
  incremented count reaches \<^verbatim>\<open>failureThreshold\<close> (otherwise it stays half-open); the
  operation is invoked and its error rethrown. A success while closed resets
  \<^verbatim>\<open>failureCount\<close> to 0 and leaves the breaker closed.
\<close>

theorem C5_breaker_transitions:
  "(state cb = HALF_OPEN \<longrightarrow>
      (let (res, cb', invoked) = execute now (Inl e :: js_error + 'a) now' cb in
         res = Inl e \<and> invoked \<and>
         failureCount cb' = failureCount cb + 1 \<and>
         state cb' = (if failureCount cb + 1 \<ge> failureThreshold cb then OPEN else HALF_OPEN)))
   \<and> (state cb = CLOSED \<longrightarrow>
      (let (res, cb', invoked) = execute now (Inr r :: js_error + 'a) now' cb in
         res = Inr r \<and> invoked \<and> failureCount cb' = 0 \<and> state cb' = CLOSED))"
  by (simp add: execute_def onFailure_def onSuccess_def Let_def)

theorem C5_breaker_transitions_witness:
  "(let cb = \<lparr>failureCount = 4, successCount = 0, lastFailureTime = 5, state = HALF_OPEN,
              failureThreshold = 5, recoveryTimeMs = 60000, successThreshold = 2\<rparr>
    in state cb = HALF_OPEN \<and>
       state (fst (snd (execute 7 (Inl (PlainError ''down'') :: js_error + unit) 8 cb))) = OPEN)
   \<and> (let cb = \<lparr>failureCount = 3, successCount = 0, lastFailureTime = 5, state = CLOSED,
              failureThreshold = 5, recoveryTimeMs = 60000, successThreshold = 2\<rparr>
    in state cb = CLOSED \<and>
       failureCount (fst (snd (execute 7 (Inr () :: js_error + unit) 8 cb))) = 0)"
  using C5_breaker_transitions
    [of "\<lparr>failureCount = 4, successCount = 0, lastFailureTime = 5, state = HALF_OPEN,
              failureThreshold = 5, recoveryTimeMs = 60000, successThreshold = 2\<rparr>"
        7 "PlainError ''down''" 8 "()"]
    C5_breaker_transitions
    [of "\<lparr>failureCount = 3, successCount = 0, lastFailureTime = 5, state = CLOSED,
              failureThreshold = 5, recoveryTimeMs = 60000, successThreshold = 2\<rparr>"
        7 "PlainError ''down''" 8 "()"]
  by (simp add: Let_def split: prod.splits)

section \<open>Properties of the retry engine\<close>

text \<open>The loop, started at attempt \<open>att\<close>, when the operation first succeeds at attempt
  \<open>N\<close> and every attempt before fails with a retryable error.\<close>

lemma executeAttempts_succeeds_at:
  assumes "att \<le> N" "N \<le> maxAttempts cfg"
    and "\<And>k. att \<le> k \<Longrightarrow> k < N \<Longrightarrow> \<exists>e. operation k = Inl e \<and> isRetryableError e (retryableErrors cfg)"
    and "operation N = Inr v"
  shows "\<exists>ctx'. executeAttempts st rnd operation cfg att lastErr ctx = (Inr v, ctx') \<and>
           attempt ctx' = N \<and> startTime ctx' = startTime ctx"
  using assms
proof (induction "nat (N - att)" arbitrary: att lastErr ctx)
  case 0
  then have "att = N" by simp
  with 0 show ?case
    by (subst executeAttempts.simps) simp
next
  case (Suc d)
  then have lt: "att < N" by linarith
  with Suc.prems obtain e where e: "operation att = Inl e" "isRetryableError e (retryableErrors cfg)"
    by (meson order_refl)
  have d: "d = nat (N - (att + 1))" using Suc.hyps(2) by linarith
  have le: "att + 1 \<le> N" using lt by simp
  have rec: "\<And>le ctx. \<exists>ctx'. executeAttempts st rnd operation cfg (att + 1) le ctx = (Inr v, ctx') \<and>
           attempt ctx' = N \<and> startTime ctx' = startTime ctx"
    using Suc.hyps(1)[OF d le Suc.prems(2) _ Suc.prems(4)] Suc.prems(3) by simp
  show ?case
    using lt Suc.prems(2) e
      rec[of "Some e" "ctx\<lparr>attempt := att, lastError := Some e,
           delays := delays ctx @ [calculateDelay st (rnd att) att cfg]\<rparr>"]
    by (subst executeAttempts.simps) (simp add: Let_def)
qed

lemma executeAttempts_not_retryable:
  assumes "att \<le> maxAttempts cfg" "operation att = Inl e" "\<not> isRetryableError e (retryableErrors cfg)"
  shows "executeAttempts st rnd operation cfg att lastErr ctx =
           (Inl (Some e), ctx\<lparr>attempt := att, lastError := Some e\<rparr>)"
  using assms by (subst executeAttempts.simps) (simp add: Let_def)

lemma executeAttempts_exhausted:
  assumes "att \<le> maxAttempts cfg"
    and "\<And>k. att \<le> k \<Longrightarrow> k < maxAttempts cfg \<Longrightarrow>
            \<exists>e. operation k = Inl e \<and> isRetryableError e (retryableErrors cfg)"
    and "operation (maxAttempts cfg) = Inl e"
  shows "\<exists>ctx'. executeAttempts st rnd operation cfg att lastErr ctx = (Inl (Some e), ctx') \<and>
           attempt ctx' = maxAttempts cfg \<and> startTime ctx' = startTime ctx"
  using assms
proof (induction "nat (maxAttempts cfg - att)" arbitrary: att lastErr ctx)
  case 0
  then have eq: "att = maxAttempts cfg" by simp
  have past: "\<And>le c. executeAttempts st rnd operation cfg (maxAttempts cfg + 1) le c = (Inl le, c)"
    by (subst executeAttempts.simps) simp
  show ?case
    using 0(4) eq past
    by (subst executeAttempts.simps) (simp add: Let_def)
next
  case (Suc d)
  then have lt: "att < maxAttempts cfg" by linarith
  with Suc.prems obtain e' where e: "operation att = Inl e'" "isRetryableError e' (retryableErrors cfg)"
    by (meson order_refl)
  have d: "d = nat (maxAttempts cfg - (att + 1))" using Suc.hyps(2) by linarith
  have le: "att + 1 \<le> maxAttempts cfg" using lt by simp
  have rec: "\<And>le ctx. \<exists>ctx'. executeAttempts st rnd operation cfg (att + 1) le ctx = (Inl (Some e), ctx') \<and>
           attempt ctx' = maxAttempts cfg \<and> startTime ctx' = startTime ctx"
    using Suc.hyps(1)[OF d le _ Suc.prems(3)] Suc.prems(2) by simp
  show ?case
    using lt e
      rec[of "Some e'" "ctx\<lparr>attempt := att, lastError := Some e',
           delays := delays ctx @ [calculateDelay st (rnd att) att cfg]\<rparr>"]
    by (subst executeAttempts.simps) (simp add: Let_def)
qed

lemma executeWithRetry_result:
  "fst (executeWithRetry rnd now0 now1 now2 operation opId custom mgr) =
     (case executeAttempts (retry_strategy mgr) rnd operation
             (mergeRetryConfig (retry_config mgr) custom) 1 None
             \<lparr>attempt = 0, startTime = now0, lastError = None, delays = []\<rparr> of
        (Inr r, ctx') \<Rightarrow>
          \<lparr>success = True, result = Some r, error = None, attempts = attempt ctx',
           totalDuration = now1 - startTime ctx', lastAttemptAt = now2\<rparr>
      | (Inl e, ctx') \<Rightarrow>
          \<lparr>success = False, result = None, error = e, attempts = attempt ctx',
           totalDuration = now1 - startTime ctx', lastAttemptAt = now2\<rparr>)"
  by (simp add: executeWithRetry_def Let_def split: prod.splits sum.splits)

text \<open>
  C6, as stated, fails for a manager whose \<^verbatim>\<open>maxAttempts\<close> is 0: the loop body never
  runs, so an operation that would fail with a non-retryable error is never invoked, and
  the result reports 0 attempts (not 1) and carries no error.
\<close>

theorem C6_zero_attempts_counterexample:
  "\<not> isRetryableError (DexSwapError INVALID_PARAMETERS ''bad'') [NETWORK_ERROR]
   \<and> attempts (fst (executeWithRetry (\<lambda>k. 0) 0 5 5
        (\<lambda>k. Inl (DexSwapError INVALID_PARAMETERS ''bad'') :: js_error + unit) None None
        \<lparr>retry_config = \<lparr>maxAttempts = 0, backoffMs = 1000, backoffMultiplier = 2,
                         retryableErrors = [NETWORK_ERROR]\<rparr>,
         retry_strategy = EXPONENTIAL_BACKOFF, activeRetries = Map.empty\<rparr>)) = 0
   \<and> error (fst (executeWithRetry (\<lambda>k. 0) 0 5 5
        (\<lambda>k. Inl (DexSwapError INVALID_PARAMETERS ''bad'') :: js_error + unit) None None
        \<lparr>retry_config = \<lparr>maxAttempts = 0, backoffMs = 1000, backoffMultiplier = 2,
                         retryableErrors = [NETWORK_ERROR]\<rparr>,
         retry_strategy = EXPONENTIAL_BACKOFF, activeRetries = Map.empty\<rparr>)) = None"
  by (simp add: executeWithRetry_result executeAttempts.simps mergeRetryConfig_def
      isRetryableError_def)

text \<open>
  C6, amended: for the retry engine with \<^verbatim>\<open>maxAttempts\<close> at least 1 (the effective
  configuration \<open>cfg\<close>, after the custom configuration is merged in),
  \<^item> an operation that fails \<open>N - 1\<close> times with retryable errors and then succeeds on
    attempt \<open>N\<close>, \<open>1 \<le> N \<le> maxAttempts\<close>, yields success with the operation's result and
    \<open>attempts = N\<close>;
  \<^item> an operation whose first attempt fails with a non-retryable error yields failure with
    that error and \<open>attempts = 1\<close>, whatever later invocations would do;
  \<^item> when all attempts are exhausted (every attempt before the last fails with a retryable
    error and the last one fails), the result is a failure with \<open>attempts = maxAttempts\<close>
    whose error is the error of the last attempt.
\<close>

theorem C6_retry_engine:
  fixes operation :: "int \<Rightarrow> js_error + 'a"
  assumes cfg: "cfg = mergeRetryConfig (retry_config mgr) custom"
    and res: "res = fst (executeWithRetry rnd tstart tdur tlast operation opId custom mgr)"
    and pos: "1 \<le> maxAttempts cfg"
  shows "(\<forall>N v. 1 \<le> N \<and> N \<le> maxAttempts cfg \<and>
             (\<forall>k. 1 \<le> k \<and> k < N \<longrightarrow>
                  (\<exists>e. operation k = Inl e \<and> isRetryableError e (retryableErrors cfg))) \<and>
             operation N = Inr v
           \<longrightarrow> success res \<and> result res = Some v \<and> attempts res = N)
       \<and> (\<forall>e. operation 1 = Inl e \<and> \<not> isRetryableError e (retryableErrors cfg)
           \<longrightarrow> \<not> success res \<and> attempts res = 1 \<and> error res = Some e)
       \<and> (\<forall>e. (\<forall>k. 1 \<le> k \<and> k < maxAttempts cfg \<longrightarrow>
                  (\<exists>e'. operation k = Inl e' \<and> isRetryableError e' (retryableErrors cfg))) \<and>
             operation (maxAttempts cfg) = Inl e
           \<longrightarrow> \<not> success res \<and> attempts res = maxAttempts cfg \<and> error res = Some e)"
proof (intro conjI allI impI)
  fix N v
  assume h: "1 \<le> N \<and> N \<le> maxAttempts cfg \<and>
             (\<forall>k. 1 \<le> k \<and> k < N \<longrightarrow>
                  (\<exists>e. operation k = Inl e \<and> isRetryableError e (retryableErrors cfg))) \<and>
             operation N = Inr v"
  then obtain ctx' where
    "executeAttempts (retry_strategy mgr) rnd operation cfg 1 None
       \<lparr>attempt = 0, startTime = tstart, lastError = None, delays = []\<rparr> = (Inr v, ctx')"
    "attempt ctx' = N"
    using executeAttempts_succeeds_at[of 1 N cfg operation v "retry_strategy mgr" rnd None
        "\<lparr>attempt = 0, startTime = tstart, lastError = None, delays = []\<rparr>"]
    by blast
  then show "success res" "result res = Some v" "attempts res = N"
    by (simp_all add: res executeWithRetry_result cfg[symmetric])
next
  fix e
  assume h: "operation 1 = Inl e \<and> \<not> isRetryableError e (retryableErrors cfg)"
  then have "executeAttempts (retry_strategy mgr) rnd operation cfg 1 None
       \<lparr>attempt = 0, startTime = tstart, lastError = None, delays = []\<rparr>
     = (Inl (Some e), \<lparr>attempt = 1, startTime = tstart, lastError = Some e, delays = []\<rparr>)"
    using executeAttempts_not_retryable[of 1 cfg operation e "retry_strategy mgr" rnd None
        "\<lparr>attempt = 0, startTime = tstart, lastError = None, delays = []\<rparr>"] pos
    by simp
  then show "\<not> success res" "attempts res = 1" "error res = Some e"
    by (simp_all add: res executeWithRetry_result cfg[symmetric])
next
  fix e
  assume h: "(\<forall>k. 1 \<le> k \<and> k < maxAttempts cfg \<longrightarrow>
                  (\<exists>e'. operation k = Inl e' \<and> isRetryableError e' (retryableErrors cfg))) \<and>
             operation (maxAttempts cfg) = Inl e"
  then obtain ctx' where
    "executeAttempts (retry_strategy mgr) rnd operation cfg 1 None
       \<lparr>attempt = 0, startTime = tstart, lastError = None, delays = []\<rparr> = (Inl (Some e), ctx')"
    "attempt ctx' = maxAttempts cfg"
    using executeAttempts_exhausted[of 1 cfg operation e "retry_strategy mgr" rnd None
        "\<lparr>attempt = 0, startTime = tstart, lastError = None, delays = []\<rparr>"] pos
    by blast
  then show "\<not> success res" "attempts res = maxAttempts cfg" "error res = Some e"
    by (simp_all add: res executeWithRetry_result cfg[symmetric])
qed

theorem C6_retry_engine_witness:
  "1 \<le> maxAttempts (mergeRetryConfig (retry_config networkRetry) None)
   \<and> success (fst (executeWithRetry (\<lambda>k. 0) 0 9 9
        (\<lambda>k. if k < 3 then Inl (DexSwapError NETWORK_ERROR ''net'') else Inr (7 :: nat))
        None None networkRetry))
   \<and> attempts (fst (executeWithRetry (\<lambda>k. 0) 0 9 9
        (\<lambda>k. if k < 3 then Inl (DexSwapError NETWORK_ERROR ''net'') else Inr (7 :: nat))
        None None networkRetry)) = 3
   \<and> attempts (fst (executeWithRetry (\<lambda>k. 0) 0 9 9
        (\<lambda>k. Inl (DexSwapError INVALID_PARAMETERS ''bad'') :: js_error + nat)
        None None networkRetry)) = 1
   \<and> error (fst (executeWithRetry (\<lambda>k. 0) 0 9 9
        (\<lambda>k. Inl (PlainError ''Network timeout'') :: js_error + nat)
        None None networkRetry)) = Some (PlainError ''Network timeout'')"
proof -
  let ?cfg = "mergeRetryConfig (retry_config networkRetry) None"
  have pos: "1 \<le> maxAttempts ?cfg"
    by (simp add: networkRetry_def mergeRetryConfig_def)
  have cfg: "maxAttempts ?cfg = 3" "retryableErrors ?cfg = [NETWORK_ERROR]"
    by (simp_all add: networkRetry_def mergeRetryConfig_def)
  let ?a = "\<lambda>k :: int. if k < 3 then Inl (DexSwapError NETWORK_ERROR ''net'') else Inr (7 :: nat)"
  let ?b = "\<lambda>k :: int. Inl (DexSwapError INVALID_PARAMETERS ''bad'') :: js_error + nat"
  let ?c = "\<lambda>k :: int. Inl (PlainError ''Network timeout'') :: js_error + nat"
  have ha: "1 \<le> (3::int) \<and> 3 \<le> maxAttempts ?cfg \<and>
             (\<forall>k. 1 \<le> k \<and> k < 3 \<longrightarrow>
                  (\<exists>e. ?a k = Inl e \<and> isRetryableError e (retryableErrors ?cfg))) \<and>
             ?a 3 = Inr 7"
    by (simp add: cfg isRetryableError_def)
  have hb: "?b 1 = Inl (DexSwapError INVALID_PARAMETERS ''bad'') \<and>
            \<not> isRetryableError (DexSwapError INVALID_PARAMETERS ''bad'') (retryableErrors ?cfg)"
    by (simp add: cfg isRetryableError_def)
  have hc: "(\<forall>k. 1 \<le> k \<and> k < maxAttempts ?cfg \<longrightarrow>
                  (\<exists>e'. ?c k = Inl e' \<and> isRetryableError e' (retryableErrors ?cfg))) \<and>
             ?c (maxAttempts ?cfg) = Inl (PlainError ''Network timeout'')"
    by (simp add: cfg isRetryableError_def toLowerCase_def)
  have a: "success (fst (executeWithRetry (\<lambda>k. 0) 0 9 9 ?a None None networkRetry))
         \<and> attempts (fst (executeWithRetry (\<lambda>k. 0) 0 9 9 ?a None None networkRetry)) = 3"
    using C6_retry_engine[where mgr = networkRetry and custom = None and rnd = "\<lambda>k. 0" and tstart = 0
        and tdur = 9 and tlast = 9 and opId = None and operation = "?a", OF refl refl pos] ha by blast
  have b: "attempts (fst (executeWithRetry (\<lambda>k. 0) 0 9 9 ?b None None networkRetry)) = 1"
    using C6_retry_engine[where mgr = networkRetry and custom = None and rnd = "\<lambda>k. 0" and tstart = 0
        and tdur = 9 and tlast = 9 and opId = None and operation = "?b", OF refl refl pos] hb by blast
  have c: "error (fst (executeWithRetry (\<lambda>k. 0) 0 9 9 ?c None None networkRetry))
             = Some (PlainError ''Network timeout'')"
    using C6_retry_engine[where mgr = networkRetry and custom = None and rnd = "\<lambda>k. 0" and tstart = 0
        and tdur = 9 and tlast = 9 and opId = None and operation = "?c", OF refl refl pos] hc by blast
  show ?thesis using pos a b c by blast
qed

section \<open>Properties of the quote cache\<close>

subsection \<open>The map operations\<close>

lemma Map_get_None_iff: "Map_get m k = None \<longleftrightarrow> k \<notin> set (map fst m)"
proof (induction m)
  case Nil
  then show ?case by simp
next
  case (Cons p m)
  then show ?case by (cases p) (simp split: if_splits)
qed

lemma Map_has_iff: "Map_has m k \<longleftrightarrow> k \<in> set (map fst m)"
  by (simp add: Map_has_def Map_get_None_iff)

lemma Map_get_Map_set: "Map_get (Map_set k v m) k = Some v"
  by (induction m) auto

lemma keys_Map_set:
  "map fst (Map_set k v m) = (if k \<in> set (map fst m) then map fst m else map fst m @ [k])"
proof (induction m)
  case Nil
  then show ?case by simp
next
  case (Cons p m)
  then show ?case by (cases p) (simp split: if_splits)
qed

lemma keys_Map_delete: "map fst (Map_delete k m) = removeAll k (map fst m)"
  by (induction m) (auto simp: Map_delete_def)

lemma Map_get_Map_delete: "Map_get (Map_delete k m) k = None"
  by (simp add: Map_get_None_iff keys_Map_delete)

lemma length_removeAll_distinct:
  "distinct xs \<Longrightarrow> x \<in> set xs \<Longrightarrow> Suc (length (removeAll x xs)) = length xs"
  by (induction xs) auto

lemma length_removeAll_le: "length (removeAll x xs) \<le> length xs"
  by (induction xs) (auto simp: le_SucI)

lemma set_remove1_distinct: "distinct xs \<Longrightarrow> set (remove1 x xs) = set xs - {x}"
  by simp

subsection \<open>The eviction scans\<close>

lemma find_smallest_cases:
  "find_smallest f m s ko = ko \<or> (\<exists>k \<in> set (map fst m). find_smallest f m s ko = Some k)"
proof (induction m arbitrary: s ko)
  case Nil
  then show ?case by simp
next
  case (Cons p m)
  obtain k e where p: "p = (k, e)" by (cases p)
  show ?case
    using Cons.IH[of "Some (f e)" "Some k"] Cons.IH[of s ko]
    by (auto simp: p)
qed

lemma find_smallest_nonempty:
  "m \<noteq> [] \<Longrightarrow> \<exists>k \<in> set (map fst m). find_smallest f m None ko = Some k"
proof (cases m)
  case Nil
  then show "m \<noteq> [] \<Longrightarrow> ?thesis" by simp
next
  case (Cons p m')
  obtain k e where p: "p = (k, e)" by (cases p)
  show ?thesis
    using find_smallest_cases[of f m' "Some (f e)" "Some k"]
    by (auto simp: Cons p)
qed

subsection \<open>The invariant\<close>

lemma cache_keys_simps [simp]:
  "cache_keys (updateHitRate c) = cache_keys c"
  "cache_keys (updateStats c) = cache_keys c"
  "cache_keys (removeFromAccessOrder k c) = cache_keys c"
  "cache_keys (updateAccessOrder k c) = cache_keys c"
  "cache_keys (c\<lparr>stats := s\<rparr>) = cache_keys c"
  "cache_keys (c\<lparr>accessOrder := ao\<rparr>) = cache_keys c"
  "cache_keys (c\<lparr>cache := m\<rparr>) = map fst m"
  by (simp_all add: cache_keys_def updateHitRate_def updateStats_def removeFromAccessOrder_def
      updateAccessOrder_def Let_def)

lemma cache_simps [simp]:
  "cache (updateHitRate c) = cache c"
  "cache (updateStats c) = cache c"
  "cache (removeFromAccessOrder k c) = cache c"
  "cache (updateAccessOrder k c) = cache c"
  by (simp_all add: updateHitRate_def updateStats_def removeFromAccessOrder_def
      updateAccessOrder_def Let_def)

lemma cache_strategy_simps [simp]:
  "cache_strategy (updateHitRate c) = cache_strategy c"
  "cache_strategy (updateStats c) = cache_strategy c"
  "cache_strategy (removeFromAccessOrder k c) = cache_strategy c"
  "cache_strategy (updateAccessOrder k c) = cache_strategy c"
  by (simp_all add: updateHitRate_def updateStats_def removeFromAccessOrder_def
      updateAccessOrder_def Let_def)

lemma cache_config_simps [simp]:
  "cache_config (updateHitRate c) = cache_config c"
  "cache_config (updateStats c) = cache_config c"
  "cache_config (removeFromAccessOrder k c) = cache_config c"
  "cache_config (updateAccessOrder k c) = cache_config c"
  by (simp_all add: updateHitRate_def updateStats_def removeFromAccessOrder_def
      updateAccessOrder_def Let_def)

lemma accessOrder_simps [simp]:
  "accessOrder (updateHitRate c) = accessOrder c"
  "accessOrder (updateStats c) = accessOrder c"
  "accessOrder (removeFromAccessOrder k c) = remove1 k (accessOrder c)"
  "accessOrder (updateAccessOrder k c) = remove1 k (accessOrder c) @ [k]"
  by (simp_all add: updateHitRate_def updateStats_def removeFromAccessOrder_def
      updateAccessOrder_def Let_def)

lemma cache_wf_stats [simp]:
  "cache_wf (updateHitRate c) = cache_wf c"
  "cache_wf (updateStats c) = cache_wf c"
  "cache_wf (c\<lparr>stats := s\<rparr>) = cache_wf c"
  by (simp_all add: cache_wf_def)

text \<open>Removing a key from the map and from the access order.\<close>

lemma drop_key_wf:
  "cache_wf c \<Longrightarrow> cache_wf (removeFromAccessOrder k (c\<lparr>cache := Map_delete k (cache c)\<rparr>))"
  by (auto simp: cache_wf_def keys_Map_delete cache_keys_def[of c]
      removeFromAccessOrder_def distinct_removeAll)

lemma drop_key_length:
  "length (cache (removeFromAccessOrder k (c\<lparr>cache := Map_delete k (cache c)\<rparr>))) \<le> length (cache c)"
  by (simp add: Map_delete_def)

lemma drop_key_length_Suc:
  assumes "distinct (cache_keys c)" "k \<in> set (cache_keys c)"
  shows "Suc (length (cache (removeFromAccessOrder k (c\<lparr>cache := Map_delete k (cache c)\<rparr>))))
           = length (cache c)"
proof -
  have "length (Map_delete k (cache c)) = length (removeAll k (cache_keys c))"
    using keys_Map_delete[of k "cache c"] by (metis cache_keys_def length_map)
  moreover have "Suc (length (removeAll k (cache_keys c))) = length (cache_keys c)"
    using assms by (rule length_removeAll_distinct)
  ultimately show ?thesis
    by (simp add: removeFromAccessOrder_def cache_keys_def)
qed

text \<open>\<^verbatim>\<open>evictEntry\<close> keeps the invariant, and on a well-formed, non-empty cache it removes
  exactly one entry.\<close>

lemma evictEntry_fields [simp]:
  "cache_config (evictEntry c) = cache_config c"
  "cache_strategy (evictEntry c) = cache_strategy c"
  by (simp_all add: evictEntry_def Let_def split: option.splits CacheStrategy.splits list.splits)

lemma evictEntry_wf: "cache_wf c \<Longrightarrow> cache_wf (evictEntry c)"
  by (auto simp: evictEntry_def Let_def drop_key_wf
      split: option.splits CacheStrategy.splits list.splits)

lemma evict_candidate:
  assumes "cache_wf c" "cache c \<noteq> []"
  shows "\<exists>k. k \<in> set (cache_keys c) \<and> k \<noteq> [] \<and>
          (case cache_strategy c of
             LRU \<Rightarrow> (case accessOrder c of [] \<Rightarrow> None | k # ks \<Rightarrow> Some k)
           | LFU \<Rightarrow> findLeastFrequentlyUsed c
           | FIFO \<Rightarrow> findOldestEntry c
           | TTL_ONLY \<Rightarrow> findSoonestToExpire c) = Some k"
proof (cases "cache_strategy c")
  case LRU
  with assms have ao: "set (accessOrder c) = set (cache_keys c)"
    by (simp add: cache_wf_def)
  from assms(2) have "cache_keys c \<noteq> []" by (simp add: cache_keys_def)
  with ao obtain k ks where "accessOrder c = k # ks"
    by (cases "accessOrder c") auto
  moreover from this ao have "k \<in> set (cache_keys c)" by auto
  moreover from this assms(1) have "k \<noteq> []" by (auto simp: cache_wf_def)
  ultimately show ?thesis using LRU by simp
next
  case LFU
  from find_smallest_nonempty[OF assms(2), of accessCount None]
  obtain k where "k \<in> set (cache_keys c)" "findLeastFrequentlyUsed c = Some k"
    by (auto simp: findLeastFrequentlyUsed_def cache_keys_def)
  moreover from this assms(1) have "k \<noteq> []" by (auto simp: cache_wf_def)
  ultimately show ?thesis using LFU by simp
next
  case FIFO
  from find_smallest_nonempty[OF assms(2), of createdAt None]
  obtain k where "k \<in> set (cache_keys c)" "findOldestEntry c = Some k"
    by (auto simp: findOldestEntry_def cache_keys_def)
  moreover from this assms(1) have "k \<noteq> []" by (auto simp: cache_wf_def)
  ultimately show ?thesis using FIFO by simp
next
  case TTL_ONLY
  from find_smallest_nonempty[OF assms(2), of "\<lambda>entry. timestamp entry + ttl entry" None]
  obtain k where "k \<in> set (cache_keys c)" "findSoonestToExpire c = Some k"
    by (auto simp: findSoonestToExpire_def cache_keys_def)
  moreover from this assms(1) have "k \<noteq> []" by (auto simp: cache_wf_def)
  ultimately show ?thesis using TTL_ONLY by simp
qed

lemma evictEntry_length:
  assumes "cache_wf c" "cache c \<noteq> []"
  shows "Suc (length (cache (evictEntry c))) = length (cache c)"
proof -
  from evict_candidate[OF assms] obtain k where
    k: "k \<in> set (cache_keys c)" "k \<noteq> []"
    and cand: "(case cache_strategy c of
             LRU \<Rightarrow> (case accessOrder c of [] \<Rightarrow> None | k # ks \<Rightarrow> Some k)
           | LFU \<Rightarrow> findLeastFrequentlyUsed c
           | FIFO \<Rightarrow> findOldestEntry c
           | TTL_ONLY \<Rightarrow> findSoonestToExpire c) = Some k"
    by blast
  have "evictEntry c =
          (let c1 = removeFromAccessOrder k (c\<lparr>cache := Map_delete k (cache c)\<rparr>)
           in c1\<lparr>stats := (stats c1)\<lparr>evictions := evictions (stats c1) + 1\<rparr>\<rparr>)"
    unfolding evictEntry_def Let_def cand using k(2) by simp
  moreover have "distinct (cache_keys c)" using assms(1) by (simp add: cache_wf_def)
  ultimately show ?thesis
    using drop_key_length_Suc[of c k] k(1) by (simp add: Let_def)
qed

lemma evictEntry_keys: "set (cache_keys (evictEntry c)) \<subseteq> set (cache_keys c)"
  by (auto simp: evictEntry_def Let_def keys_Map_delete cache_keys_def[of c]
      split: option.splits CacheStrategy.splits list.splits)

text \<open>Each method keeps the invariant.\<close>

lemma insert_wf:
  assumes "cache_wf c" "k \<noteq> []"
  shows "cache_wf ((if cache_strategy c = LRU then updateAccessOrder k c else c)
           \<lparr>cache := Map_set k e
              (cache (if cache_strategy c = LRU then updateAccessOrder k c else c))\<rparr>)"
  using assms
  by (auto simp: cache_wf_def keys_Map_set cache_keys_def updateAccessOrder_def
      removeFromAccessOrder_def Let_def)

lemma touch_wf:
  assumes "cache_wf c" "k \<in> set (cache_keys c)"
  shows "cache_wf (updateAccessOrder k (c\<lparr>cache := Map_set k e (cache c)\<rparr>))"
    and "cache_wf (c\<lparr>cache := Map_set k e (cache c)\<rparr>)"
  using assms
  by (auto simp: cache_wf_def keys_Map_set cache_keys_def updateAccessOrder_def
      removeFromAccessOrder_def Let_def)

lemma cache_set_wf:
  assumes "cache_wf c" "k \<noteq> []"
  shows "cache_wf (cache_set k v ttl_opt now c)"
proof -
  let ?c1 = "if int (length (cache c)) \<ge> maxSize (cache_config c) \<and> \<not> Map_has (cache c) k
             then evictEntry c else c"
  have "cache_wf ?c1" using assms(1) by (simp add: evictEntry_wf)
  from insert_wf[OF this assms(2)] show ?thesis
    by (simp add: cache_set_def Let_def)
qed

lemma cache_get_wf:
  assumes "cache_wf c"
  shows "cache_wf (snd (cache_get k now c))"
proof (cases "Map_get (cache c) k")
  case None
  then show ?thesis using assms by (simp add: cache_get_def)
next
  case (Some entry)
  then have "k \<in> set (cache_keys c)"
    using Map_get_None_iff[of "cache c" k] by (simp add: cache_keys_def)
  from touch_wf[OF assms this] drop_key_wf[OF assms, of k] Some show ?thesis
    by (simp add: cache_get_def Let_def)
qed

lemma cache_has_wf: "cache_wf c \<Longrightarrow> cache_wf (snd (cache_has k now c))"
  by (simp add: cache_has_def drop_key_wf split: option.splits)

lemma cache_delete_wf: "cache_wf c \<Longrightarrow> cache_wf (snd (cache_delete k c))"
  by (simp add: cache_delete_def drop_key_wf Let_def)

lemma cache_clear_wf: "cache_wf (cache_clear c)"
  by (simp add: cache_clear_def cache_wf_def cache_keys_def)

lemma delete_keys_wf: "cache_wf c \<Longrightarrow> cache_wf (snd (delete_keys ks n c))"
proof (induction ks arbitrary: n c)
  case Nil
  then show ?case by simp
next
  case (Cons k ks)
  from cache_delete_wf[OF Cons.prems, of k] Cons.IH show ?case
    by (cases "cache_delete k c") (auto split: bool.splits)
qed

lemma remove_keys_wf: "cache_wf c \<Longrightarrow> cache_wf (remove_keys ks c)"
  by (induction ks arbitrary: c) (simp_all add: drop_key_wf)

lemma apply_op_wf:
  assumes "cache_wf c" "[] \<notin> set (set_keys [op])"
  shows "cache_wf (apply_op op c)"
  using assms
  by (cases op)
     (simp_all add: cache_set_wf cache_get_wf cache_has_wf cache_delete_wf cache_clear_wf
        delete_keys_wf remove_keys_wf deleteByPrefix_def cleanup_def Let_def)

subsection \<open>The size bound\<close>

lemma length_Map_set:
  "length (Map_set k v m) = (if k \<in> set (map fst m) then length m else Suc (length m))"
  using keys_Map_set[of k v m] by (metis length_append_singleton length_map)

lemma length_Map_delete_le: "length (Map_delete k m) \<le> length m"
  by (simp add: Map_delete_def)

lemma cache_set_config [simp]: "cache_config (cache_set k v ttl_opt now c) = cache_config c"
  "cache_strategy (cache_set k v ttl_opt now c) = cache_strategy c"
  by (simp_all add: cache_set_def Let_def)

lemma cache_set_length:
  assumes wf: "cache_wf c" and pos: "1 \<le> maxSize (cache_config c)"
    and le: "int (length (cache c)) \<le> maxSize (cache_config c)"
  shows "int (length (cache (cache_set k v ttl_opt now c))) \<le> maxSize (cache_config c)"
proof -
  let ?full = "int (length (cache c)) \<ge> maxSize (cache_config c) \<and> \<not> Map_has (cache c) k"
  let ?c1 = "if ?full then evictEntry c else c"
  let ?c2 = "if cache_strategy ?c1 = LRU then updateAccessOrder k ?c1 else ?c1"
  have len: "length (cache (cache_set k v ttl_opt now c)) =
               (if k \<in> set (cache_keys ?c1) then length (cache ?c1) else Suc (length (cache ?c1)))"
    by (simp add: cache_set_def Let_def length_Map_set cache_keys_def)
  show ?thesis
  proof (cases ?full)
    case True
    then have ne: "cache c \<noteq> []" using pos by auto
    have "k \<notin> set (cache_keys c)" using True by (simp add: Map_has_iff cache_keys_def)
    then have "k \<notin> set (cache_keys (evictEntry c))" using evictEntry_keys[of c] by blast
    moreover have "Suc (length (cache (evictEntry c))) = length (cache c)"
      using evictEntry_length[OF wf ne] .
    ultimately show ?thesis using len True le by simp
  next
    case False
    show ?thesis
    proof (cases "Map_has (cache c) k")
      case True
      then show ?thesis using len False le by (simp add: Map_has_iff cache_keys_def)
    next
      case nh: False
      with False have "int (length (cache c)) < maxSize (cache_config c)" by simp
      then show ?thesis using len False by (simp add: Map_has_iff cache_keys_def)
    qed
  qed
qed

lemma cache_get_config [simp]: "cache_config (snd (cache_get k now c)) = cache_config c"
  by (simp add: cache_get_def Let_def split: option.splits)

lemma cache_get_length: "length (cache (snd (cache_get k now c))) \<le> length (cache c)"
proof (cases "Map_get (cache c) k")
  case None
  then show ?thesis by (simp add: cache_get_def)
next
  case (Some entry)
  then have "k \<in> set (map fst (cache c))"
    using Map_get_None_iff[of "cache c" k] by simp
  then show ?thesis using Some
    by (simp add: cache_get_def Let_def length_Map_set length_Map_delete_le)
qed

lemma cache_has_length:
  "cache_config (snd (cache_has k now c)) = cache_config c \<and>
   length (cache (snd (cache_has k now c))) \<le> length (cache c)"
  by (simp add: cache_has_def length_Map_delete_le split: option.splits)

lemma cache_delete_length:
  "cache_config (snd (cache_delete k c)) = cache_config c \<and>
   length (cache (snd (cache_delete k c))) \<le> length (cache c)"
  by (simp add: cache_delete_def Let_def length_Map_delete_le)

lemma delete_keys_length:
  "cache_config (snd (delete_keys ks n c)) = cache_config c \<and>
   length (cache (snd (delete_keys ks n c))) \<le> length (cache c)"
proof (induction ks arbitrary: n c)
  case Nil
  then show ?case by simp
next
  case (Cons k ks)
  obtain b c' where d: "cache_delete k c = (b, c')" by (cases "cache_delete k c")
  with cache_delete_length[of k c] have
    "cache_config c' = cache_config c" "length (cache c') \<le> length (cache c)" by simp_all
  with Cons.IH[of "n + 1" c'] Cons.IH[of n c'] d show ?case
    by (cases b) auto
qed

lemma remove_keys_length:
  "cache_config (remove_keys ks c) = cache_config c \<and>
   length (cache (remove_keys ks c)) \<le> length (cache c)"
proof (induction ks arbitrary: c)
  case Nil
  then show ?case by simp
next
  case (Cons k ks)
  have "length (cache (removeFromAccessOrder k (c\<lparr>cache := Map_delete k (cache c)\<rparr>)))
          \<le> length (cache c)"
    by (rule drop_key_length)
  with Cons.IH[of "removeFromAccessOrder k (c\<lparr>cache := Map_delete k (cache c)\<rparr>)"]
  show ?case by simp
qed

text \<open>The invariant of a run: well-formed, within the bound, configuration unchanged.\<close>

lemma apply_op_bounded:
  assumes "cache_wf c" "1 \<le> maxSize (cache_config c)"
    and "int (length (cache c)) \<le> maxSize (cache_config c)"
    and "[] \<notin> set (set_keys [op])"
  shows "cache_wf (apply_op op c) \<and> cache_config (apply_op op c) = cache_config c \<and>
         int (length (cache (apply_op op c))) \<le> maxSize (cache_config c)"
proof (intro conjI)
  show "cache_wf (apply_op op c)" using assms(1,4) by (rule apply_op_wf)
  show "cache_config (apply_op op c) = cache_config c"
    using cache_has_length[of _ _ c] cache_delete_length[of _ c] delete_keys_length[of _ 0 c]
      remove_keys_length[of _ c]
    by (cases op) (simp_all add: cache_clear_def deleteByPrefix_def cleanup_def Let_def)
  show "int (length (cache (apply_op op c))) \<le> maxSize (cache_config c)"
  proof (cases op)
    case (OpSet k v ttl_opt now)
    then show ?thesis using cache_set_length[OF assms(1,2,3)] by simp
  next
    case (OpGet k now)
    then show ?thesis using cache_get_length[of k now c] assms(3) by simp
  next
    case (OpHas k now)
    then show ?thesis using cache_has_length[of k now c] assms(3) by simp
  next
    case (OpDelete k)
    then show ?thesis using cache_delete_length[of k c] assms(3) by simp
  next
    case OpClear
    then show ?thesis using assms(2) by (simp add: cache_clear_def)
  next
    case (OpDeleteByPrefix p)
    then show ?thesis
      using delete_keys_length[of "filter (\<lambda>k. startsWith k p) (map fst (cache c))" 0 c] assms(3)
      by (simp add: deleteByPrefix_def)
  next
    case (OpCleanup now)
    then show ?thesis
      using remove_keys_length[of
          "map fst (filter (\<lambda>(k, entry). now - timestamp entry > ttl entry) (cache c))" c] assms(3)
      by (simp add: cleanup_def Let_def)
  qed
qed

lemma apply_ops_bounded:
  assumes "cache_wf c" "1 \<le> maxSize (cache_config c)"
    and "int (length (cache c)) \<le> maxSize (cache_config c)"
    and "[] \<notin> set (set_keys ops)"
  shows "cache_wf (apply_ops ops c) \<and> cache_config (apply_ops ops c) = cache_config c \<and>
         int (length (cache (apply_ops ops c))) \<le> maxSize (cache_config c)"
  using assms
proof (induction ops arbitrary: c)
  case Nil
  then show ?case by simp
next
  case (Cons op ops)
  have k1: "[] \<notin> set (set_keys [op])" and k2: "[] \<notin> set (set_keys ops)"
    using Cons.prems(4) by (cases op; simp)+
  from apply_op_bounded[OF Cons.prems(1,2,3) k1] Cons.IH[of "apply_op op c"] k2 Cons.prems(2)
  show ?case by simp
qed

lemma new_SmartCacheManager_wf:
  "cache_wf (new_SmartCacheManager config strategy)"
  "cache (new_SmartCacheManager config strategy) = []"
  "cache_config (new_SmartCacheManager config strategy) = config"
  by (simp_all add: new_SmartCacheManager_def cache_wf_def cache_keys_def)

lemma evictEntry_evictions:
  assumes "cache_wf c" "cache c \<noteq> []"
  shows "evictions (stats (evictEntry c)) = evictions (stats c) + 1"
proof -
  from evict_candidate[OF assms] obtain k where
    k: "k \<noteq> []"
    and cand: "(case cache_strategy c of
             LRU \<Rightarrow> (case accessOrder c of [] \<Rightarrow> None | k # ks \<Rightarrow> Some k)
           | LFU \<Rightarrow> findLeastFrequentlyUsed c
           | FIFO \<Rightarrow> findOldestEntry c
           | TTL_ONLY \<Rightarrow> findSoonestToExpire c) = Some k"
    by blast
  show ?thesis
    unfolding evictEntry_def Let_def cand using k
    by (simp add: removeFromAccessOrder_def)
qed

lemma cache_set_evictions:
  "evictions (stats (cache_set k v ttl_opt now c)) =
     evictions (stats (if int (length (cache c)) \<ge> maxSize (cache_config c) \<and> \<not> Map_has (cache c) k
                       then evictEntry c else c))"
  by (simp add: cache_set_def Let_def updateStats_def updateHitRate_def updateAccessOrder_def
      removeFromAccessOrder_def)

lemma cache_set_stored:
  "Map_get (cache (cache_set k v ttl_opt now c)) k =
     Some \<lparr>key = k, data = v, timestamp = now,
           ttl = (case ttl_opt of None \<Rightarrow> quoteTtl (cache_config c) | Some t \<Rightarrow> t),
           accessCount = 1, lastAccessed = now, createdAt = now\<rparr>"
  by (simp add: cache_set_def Let_def Map_get_Map_set)

subsection \<open>Claims about the cache\<close>

text \<open>
  C7, as stated, fails for a negative \<^verbatim>\<open>ttl\<close>: the entry stored with \<open>ttl = -1\<close> is
  already expired when it is read back at the same clock reading (\<open>0 > -1\<close>).
\<close>

theorem C7_negative_ttl_counterexample:
  "fst (cache_get ''k'' 1000
         (cache_set ''k'' (42 :: nat) (Some (- 1)) 1000
            (new_SmartCacheManager DEFAULT_CACHE_CONFIG LRU))) = None"
  by (simp add: cache_get_def cache_set_stored Let_def)

text \<open>
  C7, amended: for every key \<open>k\<close>, value \<open>v\<close> and \<^verbatim>\<open>ttl\<close> \<open>t \<ge> 0\<close>, in every state of the
  cache and under every eviction strategy, \<^verbatim>\<open>set(k, v, t)\<close> followed immediately (at the
  same clock reading) by \<^verbatim>\<open>get(k)\<close> returns \<open>v\<close>, and so does a \<^verbatim>\<open>get(k)\<close> at any reading
  \<open>now'\<close> with \<open>now' - now \<le> t\<close>; once more than \<open>t\<close> has elapsed since the set
  (\<open>now' - now > t\<close>), \<^verbatim>\<open>get(k)\<close> returns a miss and the entry is removed from the map.
\<close>

theorem C7_cache_round_trip:
  "(0 \<le> t \<longrightarrow> fst (cache_get k now (cache_set k v (Some t) now c)) = Some v)
   \<and> (now' - now \<le> t \<longrightarrow> fst (cache_get k now' (cache_set k v (Some t) now c)) = Some v)
   \<and> (now' - now > t \<longrightarrow>
        fst (cache_get k now' (cache_set k v (Some t) now c)) = None \<and>
        \<not> Map_has (cache (snd (cache_get k now' (cache_set k v (Some t) now c)))) k)"
  by (simp add: cache_get_def cache_set_stored Let_def Map_has_def Map_get_Map_delete)

theorem C7_cache_round_trip_witness:
  "(0 :: int) \<le> 30000 \<and> (31001 :: int) - 1000 > 30000
   \<and> fst (cache_get ''quote:a:b:1:0.5'' 1000
        (cache_set ''quote:a:b:1:0.5'' (42 :: nat) (Some 30000) 1000
           (new_SmartCacheManager DEFAULT_CACHE_CONFIG LRU))) = Some 42
   \<and> fst (cache_get ''quote:a:b:1:0.5'' 31001
        (cache_set ''quote:a:b:1:0.5'' (42 :: nat) (Some 30000) 1000
           (new_SmartCacheManager DEFAULT_CACHE_CONFIG LRU))) = None"
proof -
  have h1: "(0 :: int) \<le> 30000" and h2: "(31001 :: int) - 1000 > 30000" by simp_all
  from C7_cache_round_trip[of 30000 "''quote:a:b:1:0.5''" 1000 "42 :: nat"
      "new_SmartCacheManager DEFAULT_CACHE_CONFIG LRU" 31001] h1 h2
  show ?thesis by blast
qed

text \<open>
  C10, as stated, fails for a cache configured with \<^verbatim>\<open>maxSize\<close> 0: there is nothing to
  evict from the empty cache, and \<^verbatim>\<open>set\<close> inserts all the same.
\<close>

theorem C10_zero_maxSize_counterexample:
  "\<not> int (length (cache (apply_ops [OpSet ''a'' (1 :: nat) None 0]
         (new_SmartCacheManager \<lparr>quoteTtl = 30000, maxSize = 0, cleanupInterval = 60000\<rparr> LRU))))
      \<le> maxSize \<lparr>quoteTtl = 30000, maxSize = 0, cleanupInterval = 60000\<rparr>"
  by (simp add: new_SmartCacheManager_def cache_set_def evictEntry_def Map_has_def Let_def)

text \<open>
  The bound also fails, for any \<^verbatim>\<open>maxSize\<close>, once the key to evict is the empty string:
  \<^verbatim>\<open>if (keyToEvict)\<close> takes it for no key, nothing is evicted, and the insert goes ahead.
\<close>

lemma empty_key_is_not_evicted:
  "length (cache (apply_ops [OpSet '''' (1 :: nat) None 0, OpSet ''a'' 2 None 1]
      (new_SmartCacheManager \<lparr>quoteTtl = 30000, maxSize = 1, cleanupInterval = 60000\<rparr> LRU))) = 2"
  by (simp add: new_SmartCacheManager_def cache_set_def evictEntry_def Map_has_def Let_def
      updateAccessOrder_def removeFromAccessOrder_def updateStats_def updateHitRate_def)

text \<open>
  C10, amended: for a cache configured with \<^verbatim>\<open>maxSize\<close> at least 1, under every eviction
  strategy and for every sequence of \<^verbatim>\<open>set\<close>, \<^verbatim>\<open>get\<close>, \<^verbatim>\<open>has\<close>, \<^verbatim>\<open>delete\<close>, \<^verbatim>\<open>clear\<close>,
  \<^verbatim>\<open>deleteByPrefix\<close> and \<^verbatim>\<open>cleanup\<close> calls that stores under non-empty keys only, the cache
  never holds more than \<^verbatim>\<open>maxSize\<close> entries; and a \<^verbatim>\<open>set\<close> of a new key on the full cache
  reached evicts exactly one entry and leaves the size unchanged.
\<close>

theorem C10_cache_size_bounded:
  assumes "1 \<le> maxSize config" and "[] \<notin> set (set_keys ops)"
    and "c = apply_ops ops (new_SmartCacheManager config strategy)"
  shows "int (length (cache c)) \<le> maxSize config
       \<and> (\<not> Map_has (cache c) k \<and> int (length (cache c)) \<ge> maxSize config \<longrightarrow>
            evictions (stats (cache_set k v ttl_opt now c)) = evictions (stats c) + 1 \<and>
            length (cache (cache_set k v ttl_opt now c)) = length (cache c) \<and>
            Map_has (cache (cache_set k v ttl_opt now c)) k)"
proof -
  have wf0: "cache_wf (new_SmartCacheManager config strategy)"
    by (rule new_SmartCacheManager_wf)
  have pos0: "1 \<le> maxSize (cache_config (new_SmartCacheManager config strategy))"
    using assms(1) by (simp add: new_SmartCacheManager_wf)
  have le0: "int (length (cache (new_SmartCacheManager config strategy)))
               \<le> maxSize (cache_config (new_SmartCacheManager config strategy))"
    using assms(1) by (simp add: new_SmartCacheManager_wf)
  have inv: "cache_wf c \<and> cache_config c = config \<and> int (length (cache c)) \<le> maxSize config"
    using apply_ops_bounded[OF wf0 pos0 le0 assms(2)] assms(3)
    by (simp add: new_SmartCacheManager_wf)
  have full: "evictions (stats (cache_set k v ttl_opt now c)) = evictions (stats c) + 1 \<and>
            length (cache (cache_set k v ttl_opt now c)) = length (cache c) \<and>
            Map_has (cache (cache_set k v ttl_opt now c)) k"
    if new: "\<not> Map_has (cache c) k" and ge: "int (length (cache c)) \<ge> maxSize config"
  proof -
    have ne: "cache c \<noteq> []" using ge assms(1) by auto
    have cond: "int (length (cache c)) \<ge> maxSize (cache_config c) \<and> \<not> Map_has (cache c) k"
      using new ge inv by simp
    have ev: "evictions (stats (cache_set k v ttl_opt now c)) = evictions (stats c) + 1"
      using cache_set_evictions[of k v ttl_opt now c] cond evictEntry_evictions[of c] inv ne
      by simp
    have "k \<notin> set (cache_keys c)" using new by (simp add: Map_has_iff cache_keys_def)
    then have nk: "k \<notin> set (map fst (cache (evictEntry c)))"
      using evictEntry_keys[of c] by (auto simp: cache_keys_def)
    have "length (cache (cache_set k v ttl_opt now c)) = Suc (length (cache (evictEntry c)))"
      using cond nk by (simp add: cache_set_def Let_def length_Map_set)
    then have len: "length (cache (cache_set k v ttl_opt now c)) = length (cache c)"
      using evictEntry_length[of c] inv ne by simp
    have "Map_has (cache (cache_set k v ttl_opt now c)) k"
      by (simp add: Map_has_def cache_set_stored)
    with ev len show ?thesis by simp
  qed
  show ?thesis using inv full by blast
qed

theorem C10_cache_size_bounded_witness:
  "(1 :: int) \<le> maxSize \<lparr>quoteTtl = 30000, maxSize = 2, cleanupInterval = 60000\<rparr>
   \<and> [] \<notin> set (set_keys [OpSet ''a'' (1 :: nat) None 0, OpSet ''b'' 2 None 1, OpGet ''a'' 2])
   \<and> \<not> Map_has (cache (apply_ops [OpSet ''a'' (1 :: nat) None 0, OpSet ''b'' 2 None 1, OpGet ''a'' 2]
         (new_SmartCacheManager \<lparr>quoteTtl = 30000, maxSize = 2, cleanupInterval = 60000\<rparr> LRU)))
       ''c''
   \<and> length (cache (apply_ops [OpSet ''a'' (1 :: nat) None 0, OpSet ''b'' 2 None 1, OpGet ''a'' 2]
         (new_SmartCacheManager \<lparr>quoteTtl = 30000, maxSize = 2, cleanupInterval = 60000\<rparr> LRU)))
       = 2
   \<and> length (cache (cache_set ''c'' 3 None 3
        (apply_ops [OpSet ''a'' (1 :: nat) None 0, OpSet ''b'' 2 None 1, OpGet ''a'' 2]
         (new_SmartCacheManager \<lparr>quoteTtl = 30000, maxSize = 2, cleanupInterval = 60000\<rparr> LRU))))
       = 2
   \<and> map fst (cache (cache_set ''c'' 3 None 3
        (apply_ops [OpSet ''a'' (1 :: nat) None 0, OpSet ''b'' 2 None 1, OpGet ''a'' 2]
         (new_SmartCacheManager \<lparr>quoteTtl = 30000, maxSize = 2, cleanupInterval = 60000\<rparr> LRU))))
       = [''a'', ''c'']"
proof -
  let ?cfg = "\<lparr>quoteTtl = 30000, maxSize = 2, cleanupInterval = 60000\<rparr>"
  let ?ops = "[OpSet ''a'' (1 :: nat) None 0, OpSet ''b'' 2 None 1, OpGet ''a'' 2]"
  let ?c = "apply_ops ?ops (new_SmartCacheManager ?cfg LRU)"
  have h1: "1 \<le> maxSize ?cfg" by simp
  have h2: "[] \<notin> set (set_keys ?ops)" by simp
  have keys: "map fst (cache ?c) = [''a'', ''b'']" "accessOrder ?c = [''b'', ''a'']"
    "cache_strategy ?c = LRU" "cache_config ?c = ?cfg"
    by (simp_all add: new_SmartCacheManager_def cache_set_def cache_get_def evictEntry_def
        Map_has_def Let_def updateAccessOrder_def removeFromAccessOrder_def updateStats_def
        updateHitRate_def)
  have h3: "\<not> Map_has (cache ?c) ''c''" by (simp only: Map_has_iff keys) simp
  have len: "length (cache ?c) = 2"
    using keys(1) by (metis length_map length_Cons list.size(3) numeral_2_eq_2)
  then have h4: "int (length (cache ?c)) \<ge> maxSize ?cfg" by simp
  from C10_cache_size_bounded[OF h1 h2 refl, of LRU "''c''" 3 None 3] h3 h4
  have "length (cache (cache_set ''c'' 3 None 3 ?c)) = length (cache ?c)" by blast
  then have len': "length (cache (cache_set ''c'' 3 None 3 ?c)) = 2" using len by simp
  have "map fst (cache (cache_set ''c'' 3 None 3 ?c)) = [''a'', ''c'']"
    using keys h3 len
    by (simp add: cache_set_def Let_def evictEntry_def keys_Map_set keys_Map_delete
        removeFromAccessOrder_def updateAccessOrder_def)
  with h1 h2 h3 len len' show ?thesis by blast
qed

section \<open>Properties of the settlement route\<close>

subsection \<open>The steps of one request make up the handler\<close>

lemma step_simps:
  "step env req AtNonceCheck w =
     (if checkNonceExists (nonce req) (clock env) (ledger w)
      then (Responded DUPLICATE_NONCE, w)
      else if templateId req = Some ''token-mint'' then (AtLimitCheck, w)
      else (AtSettle, w))"
  "step env req AtLimitCheck w =
     (case limit_gate req (ledger w) of
        (Some response, l1) \<Rightarrow> (Responded response, w\<lparr>ledger := l1\<rparr>)
      | (None, l1) \<Rightarrow> (AtSettle, w\<lparr>ledger := l1\<rparr>))"
  "step env req AtSettle w =
     (let w1 = w\<lparr>effects := effects w @ [SettleCalled (nonce req)]\<rparr> in
      case settle_result env of
        Inl message \<Rightarrow> (Responded (PAYMENT_ERROR message), w1)
      | Inr settleResult \<Rightarrow>
          if \<not> (True \<in> set settleResult) then (Responded SETTLEMENT_FAILED, w1)
          else (AtSavePayment, w1))"
  "step env req AtSavePayment w =
     (let (paymentRecord, l2) =
            savePaymentRecord (nonce req) (payment_data req) (clock env) (ledger w);
          w2 = w\<lparr>ledger := l2, effects := effects w @ [PaymentSaved (nonce req)]\<rparr>
      in if templateId req = Some ''token-mint''
         then (AtIncrement paymentRecord, w2)
         else (Responded (SUCCESS (get_prop paymentRecord ''nonce'') None), w2))"
  "step env req (AtIncrement paymentRecord) w =
     (let (newCount, l1) = incrementMintCount ''token-mint'' (ledger w);
          w1 = w\<lparr>ledger := l1\<rparr>
      in if wallet_missing env
         then (Responded (MINT_FAILED ''receiving wallet address is not configured''
                 (get_prop paymentRecord ''nonce'')), w1)
         else (AtSwap paymentRecord, w1))"
  "step env req (AtSwap paymentRecord) w =
     (AtSaveMint paymentRecord (swap_result env),
      w\<lparr>effects := effects w @ [SwapCalled (nonce req)]\<rparr>)"
  "step env req (AtSaveMint paymentRecord outcome) w =
     (Responded (fst (save_mint_leg env req paymentRecord outcome w)),
      snd (save_mint_leg env req paymentRecord outcome w))"
  "step env req (Responded response) w = (Responded response, w)"
  by (simp_all add: step_def split: prod.splits)

lemma steps_Responded: "steps n env req (Responded r) w = (Responded r, w)"
  by (induction n) (simp_all add: step_simps)

lemma steps_AtSaveMint:
  "steps (Suc n) env req (AtSaveMint pr outcome) w =
     (Responded (fst (save_mint_leg env req pr outcome w)),
      snd (save_mint_leg env req pr outcome w))"
  by (simp add: step_simps steps_Responded)

lemma steps_AtSwap:
  "steps (Suc (Suc n)) env req (AtSwap pr) w =
     (Responded (fst (save_mint_leg env req pr (swap_result env)
                   (w\<lparr>effects := effects w @ [SwapCalled (nonce req)]\<rparr>))),
      snd (save_mint_leg env req pr (swap_result env)
             (w\<lparr>effects := effects w @ [SwapCalled (nonce req)]\<rparr>)))"
  by (subst steps.simps(2)) (simp add: step_simps steps_AtSaveMint del: steps.simps)

lemma steps_AtIncrement:
  "steps (Suc (Suc (Suc n))) env req (AtIncrement pr) w =
     (Responded (fst (mint_leg env req pr w)), snd (mint_leg env req pr w))"
  by (subst steps.simps(2))
     (simp add: step_simps steps_AtSwap steps_Responded mint_leg_def Let_def
        del: steps.simps split: prod.splits)

lemma steps_AtSavePayment:
  "steps (Suc (Suc (Suc (Suc n)))) env req AtSavePayment w =
     (let (paymentRecord, l2) =
            savePaymentRecord (nonce req) (payment_data req) (clock env) (ledger w);
          w2 = w\<lparr>ledger := l2, effects := effects w @ [PaymentSaved (nonce req)]\<rparr>
      in if templateId req = Some ''token-mint''
         then (Responded (fst (mint_leg env req paymentRecord w2)),
               snd (mint_leg env req paymentRecord w2))
         else (Responded (SUCCESS (get_prop paymentRecord ''nonce'') None), w2))"
  by (subst steps.simps(2))
     (simp add: step_simps steps_AtIncrement steps_Responded Let_def
        del: steps.simps split: prod.splits)

lemma steps_AtSettle:
  "steps (Suc (Suc (Suc (Suc (Suc n))))) env req AtSettle w =
     (Responded (fst (settle_leg env req w)), snd (settle_leg env req w))"
  by (subst steps.simps(2))
     (simp add: step_simps steps_AtSavePayment steps_Responded settle_leg_def Let_def
        del: steps.simps split: prod.splits sum.splits)

lemma steps_AtLimitCheck:
  "steps (Suc (Suc (Suc (Suc (Suc (Suc n)))))) env req AtLimitCheck w =
     (case limit_gate req (ledger w) of
        (Some response, l1) \<Rightarrow> (Responded response, w\<lparr>ledger := l1\<rparr>)
      | (None, l1) \<Rightarrow> (Responded (fst (settle_leg env req (w\<lparr>ledger := l1\<rparr>))),
                        snd (settle_leg env req (w\<lparr>ledger := l1\<rparr>))))"
  by (subst steps.simps(2))
     (simp add: step_simps steps_AtSettle steps_Responded
        del: steps.simps split: prod.splits option.splits)

text \<open>Seven steps of a request alone in flight are the handler \<open>verify\<close>.\<close>

lemma steps_verify:
  "steps (Suc (Suc (Suc (Suc (Suc (Suc (Suc 0))))))) env req AtNonceCheck w =
     (Responded (fst (verify env req w)), snd (verify env req w))"
proof (cases "templateId req = Some ''token-mint''")
  case True
  then show ?thesis
    by (subst steps.simps(2))
       (simp add: step_simps steps_AtLimitCheck steps_Responded verify_def
          del: steps.simps split: prod.splits option.splits)
next
  case False
  then have "limit_gate req (ledger w) = (None, ledger w)"
    by (simp add: limit_gate_def)
  with False show ?thesis
    by (subst steps.simps(2))
       (simp add: step_simps steps_AtSettle steps_Responded verify_def del: steps.simps)
qed

lemma run_alone:
  "run (replicate n 0) ([(env, req, p)], w) =
     ([(env, req, fst (steps n env req p w))], snd (steps n env req p w))"
proof (induction n arbitrary: p w)
  case 0
  then show ?case by simp
next
  case (Suc n)
  show ?case
    using Suc.IH by (simp add: sched_def split: prod.splits)
qed

lemma verify_as_run:
  "run [0, 0, 0, 0, 0, 0, 0] (arrive [(env, req)] w) =
     ([(env, req, Responded (fst (verify env req w)))], snd (verify env req w))"
proof -
  have "[0, 0, 0, 0, 0, 0, 0] = replicate (Suc (Suc (Suc (Suc (Suc (Suc (Suc 0))))))) (0 :: nat)"
    by simp
  then show ?thesis
    using run_alone[of "Suc (Suc (Suc (Suc (Suc (Suc (Suc 0))))))" env req AtNonceCheck w]
    by (simp only: arrive_def steps_verify list.map prod.case fst_conv snd_conv)
qed

subsection \<open>Evaluating the scenario\<close>

lemma object_literal_last:
  "Map_get (object_literal (props @ [(k, v)])) k = Some v"
  by (simp add: object_literal_def Map_get_Map_set)

lemma saveMintRecord_status:
  "get_prop (fst (saveMintRecord address mintData now l)) ''status'' = JStr ''success''"
proof -
  have "Map_get (object_literal
          (((''id'', JNum (of_int now)) # mintData @ [(''created_at'', JDate now)]) @
           [(''status'', JStr ''success'')])) ''status'' = Some (JStr ''success'')"
    by (rule object_literal_last)
  then show ?thesis
    by (simp add: saveMintRecord_def get_prop_def Let_def)
qed

lemmas scenario_defs =
  scenario_world_def scenario_ledger_def scenario_request_def scenario_env_def swapped_def

lemmas route_defs =
  verify_def settle_leg_def mint_leg_def save_mint_leg_def limit_gate_def
  checkNonceExists_def checkMintLimit_def initializeTemplateConfig_def
  getCurrentMintCount_def incrementMintCount_def savePaymentRecord_def saveMintRecord_def
  payment_data_def mint_data_swapped_def mint_data_failed_def mint_record_summary_def
  wallet_missing_def templateId_value_def opt_str_def response_object_def
  object_literal_def get_prop_def

text \<open>The first end-to-end scenario: nonce \<^verbatim>\<open>abc\<close>, 9 of 10 minted, settlement and swap
  succeed. The counter becomes 10, a mint record is created, and the response reports
  \<^verbatim>\<open>mint_count\<close> 1.\<close>

lemma scenario_mint:
  "fst (verify (scenario_env 1000 (Inr swapped)) (scenario_request ''abc'') (scenario_world 9))
     = SUCCESS (JStr ''abc'')
         (Some [(''mint_record_id'', JNum 1000), (''mint_count'', JNum 1),
                (''tx_hash'', JStr ''0xhash'')])"
  "mint_count (ledger (snd (verify (scenario_env 1000 (Inr swapped)) (scenario_request ''abc'')
       (scenario_world 9)))) ''token-mint'' = Some 10"
  "payment_nonce (ledger (snd (verify (scenario_env 1000 (Inr swapped)) (scenario_request ''abc'')
       (scenario_world 9)))) ''abc''
     = Some (86401000,
         [(''nonce'', JStr ''abc''), (''from_address'', JStr ''0xfrom''),
          (''to_address'', JStr ''0xto''), (''value'', JNum 1000000),
          (''template_id'', JStr ''token-mint''), (''created_at'', JDate 1000),
          (''status'', JStr ''paid'')])"
  "effects (snd (verify (scenario_env 1000 (Inr swapped)) (scenario_request ''abc'')
       (scenario_world 9)))
     = [SettleCalled ''abc'', PaymentSaved ''abc'', SwapCalled ''abc'']"
  "length (mint_records (ledger (snd (verify (scenario_env 1000 (Inr swapped))
       (scenario_request ''abc'') (scenario_world 9)))) ''0xfrom'') = 1"
  by (simp_all add: scenario_defs route_defs Let_def)

subsection \<open>Claims about the settlement route\<close>

text \<open>
  C1 fails on the code. With 9 of 10 minted, two \<^verbatim>\<open>token-mint\<close> requests with different
  nonces arrive together and take their steps in turn: both pass \<^verbatim>\<open>checkMintLimit\<close> (each
  reads the count 9) before either increments, both settlements succeed, and both
  increments are applied. Both requests are answered with success, and the counter ends
  at 11, above \<^verbatim>\<open>max_mint_count\<close> 10: the value \<^verbatim>\<open>INCR\<close> returns is only logged.
\<close>

theorem C1_concurrent_requests_exceed_cap:
  "responses (run [0, 1, 0, 1, 0, 1, 0, 1, 0, 1, 0, 1, 0, 1]
      (arrive [(scenario_env 1000 (Inr swapped), scenario_request ''a''),
               (scenario_env 1000 (Inr swapped), scenario_request ''b'')]
         (scenario_world 9)))
     = [Some (SUCCESS (JStr ''a'')
          (Some [(''mint_record_id'', JNum 1000), (''mint_count'', JNum 1),
                 (''tx_hash'', JStr ''0xhash'')])),
        Some (SUCCESS (JStr ''b'')
          (Some [(''mint_record_id'', JNum 1000), (''mint_count'', JNum 1),
                 (''tx_hash'', JStr ''0xhash'')]))]
   \<and> mint_count (ledger (snd (run [0, 1, 0, 1, 0, 1, 0, 1, 0, 1, 0, 1, 0, 1]
      (arrive [(scenario_env 1000 (Inr swapped), scenario_request ''a''),
               (scenario_env 1000 (Inr swapped), scenario_request ''b'')]
         (scenario_world 9))))) ''token-mint'' = Some 11
   \<and> map_option max_mint_count (template_config (ledger (snd (run [0, 1, 0, 1, 0, 1, 0, 1, 0, 1, 0, 1, 0, 1]
      (arrive [(scenario_env 1000 (Inr swapped), scenario_request ''a''),
               (scenario_env 1000 (Inr swapped), scenario_request ''b'')]
         (scenario_world 9))))) ''token-mint'') = Some 10"
  by (simp add: responses_def arrive_def sched_def step_simps scenario_defs
      save_mint_leg_def limit_gate_def
      checkNonceExists_def checkMintLimit_def initializeTemplateConfig_def
      getCurrentMintCount_def incrementMintCount_def savePaymentRecord_def saveMintRecord_def
      payment_data_def mint_data_swapped_def mint_data_failed_def mint_record_summary_def
      wallet_missing_def templateId_value_def opt_str_def response_object_def
      object_literal_def get_prop_def Let_def)

text \<open>
  C2 fails on the code. Two requests with the same nonce \<^verbatim>\<open>abc\<close> arrive together and take
  their steps in turn: both pass \<^verbatim>\<open>checkNonceExists\<close> before either has written its payment
  record, the provider is called twice, \<^verbatim>\<open>savePaymentRecord\<close> (an unconditional \<^verbatim>\<open>SETEX\<close>)
  runs twice, and neither caller receives \<^verbatim>\<open>DUPLICATE_NONCE\<close>.
\<close>

theorem C2_concurrent_same_nonce_both_settle:
  "responses (run [0, 1, 0, 1, 0, 1, 0, 1, 0, 1, 0, 1, 0, 1]
      (arrive [(scenario_env 1000 (Inr swapped), scenario_request ''abc''),
               (scenario_env 1000 (Inr swapped), scenario_request ''abc'')]
         (scenario_world 0)))
     = [Some (SUCCESS (JStr ''abc'')
          (Some [(''mint_record_id'', JNum 1000), (''mint_count'', JNum 1),
                 (''tx_hash'', JStr ''0xhash'')])),
        Some (SUCCESS (JStr ''abc'')
          (Some [(''mint_record_id'', JNum 1000), (''mint_count'', JNum 1),
                 (''tx_hash'', JStr ''0xhash'')]))]
   \<and> effects (snd (run [0, 1, 0, 1, 0, 1, 0, 1, 0, 1, 0, 1, 0, 1]
      (arrive [(scenario_env 1000 (Inr swapped), scenario_request ''abc''),
               (scenario_env 1000 (Inr swapped), scenario_request ''abc'')]
         (scenario_world 0))))
     = [SettleCalled ''abc'', SettleCalled ''abc'', PaymentSaved ''abc'', PaymentSaved ''abc'',
        SwapCalled ''abc'', SwapCalled ''abc'']
   \<and> mint_count (ledger (snd (run [0, 1, 0, 1, 0, 1, 0, 1, 0, 1, 0, 1, 0, 1]
      (arrive [(scenario_env 1000 (Inr swapped), scenario_request ''abc''),
               (scenario_env 1000 (Inr swapped), scenario_request ''abc'')]
         (scenario_world 0))))) ''token-mint'' = Some 2"
  by (simp add: responses_def arrive_def sched_def step_simps scenario_defs
      save_mint_leg_def limit_gate_def
      checkNonceExists_def checkMintLimit_def initializeTemplateConfig_def
      getCurrentMintCount_def incrementMintCount_def savePaymentRecord_def saveMintRecord_def
      payment_data_def mint_data_swapped_def mint_data_failed_def mint_record_summary_def
      wallet_missing_def templateId_value_def opt_str_def response_object_def
      object_literal_def get_prop_def Let_def)

text \<open>
  C3: a request whose nonce has a payment record in the ledger (stored and not yet
  expired) is answered \<^verbatim>\<open>DUPLICATE_NONCE\<close> at the first gate, and the world is left as it
  was: the settlement provider is not called (no effect is logged), and the ledger, the
  mint counter in particular, is unchanged. The same holds of the first step of the
  request when other requests are in flight.
\<close>

theorem C3_duplicate_nonce_first_gate:
  assumes "payment_nonce (ledger w) (nonce req) = Some (expires, record)"
    and "clock env < expires"
  shows "verify env req w = (DUPLICATE_NONCE, w)
       \<and> effects (snd (verify env req w)) = effects w
       \<and> mint_count (ledger (snd (verify env req w))) = mint_count (ledger w)
       \<and> step env req AtNonceCheck w = (Responded DUPLICATE_NONCE, w)"
  using assms by (simp add: verify_def step_simps checkNonceExists_def)

text \<open>The follow-up of the first scenario: \<^verbatim>\<open>abc\<close> again, one second later.\<close>

theorem C3_duplicate_nonce_first_gate_witness:
  "payment_nonce (ledger (snd (verify (scenario_env 1000 (Inr swapped)) (scenario_request ''abc'')
       (scenario_world 9)))) (nonce (scenario_request ''abc''))
     = Some (86401000,
         [(''nonce'', JStr ''abc''), (''from_address'', JStr ''0xfrom''),
          (''to_address'', JStr ''0xto''), (''value'', JNum 1000000),
          (''template_id'', JStr ''token-mint''), (''created_at'', JDate 1000),
          (''status'', JStr ''paid'')])
   \<and> clock (scenario_env 2000 (Inr swapped)) < 86401000
   \<and> fst (verify (scenario_env 2000 (Inr swapped)) (scenario_request ''abc'')
        (snd (verify (scenario_env 1000 (Inr swapped)) (scenario_request ''abc'')
           (scenario_world 9)))) = DUPLICATE_NONCE
   \<and> mint_count (ledger (snd (verify (scenario_env 2000 (Inr swapped)) (scenario_request ''abc'')
        (snd (verify (scenario_env 1000 (Inr swapped)) (scenario_request ''abc'')
           (scenario_world 9)))))) ''token-mint'' = Some 10"
proof -
  let ?w1 = "snd (verify (scenario_env 1000 (Inr swapped)) (scenario_request ''abc'')
               (scenario_world 9))"
  have h1: "payment_nonce (ledger ?w1) (nonce (scenario_request ''abc''))
     = Some (86401000,
         [(''nonce'', JStr ''abc''), (''from_address'', JStr ''0xfrom''),
          (''to_address'', JStr ''0xto''), (''value'', JNum 1000000),
          (''template_id'', JStr ''token-mint''), (''created_at'', JDate 1000),
          (''status'', JStr ''paid'')])"
    using scenario_mint(3) by (simp add: scenario_request_def)
  have h2: "clock (scenario_env 2000 (Inr swapped)) < 86401000"
    by (simp add: scenario_env_def)
  from C3_duplicate_nonce_first_gate[OF h1 h2]
  have "verify (scenario_env 2000 (Inr swapped)) (scenario_request ''abc'') ?w1
          = (DUPLICATE_NONCE, ?w1)" by blast
  then show ?thesis using h1 h2 scenario_mint(2) by simp
qed

text \<open>
  C4 fails on the code. In the scenario with a swap that throws (\<^verbatim>\<open>catch (swapError)\<close>),
  the request is answered \<^verbatim>\<open>MINT_FAILED\<close> and a mint record is pushed on the payer's list
  with the error message, but its status is \<^verbatim>\<open>success\<close>: \<^verbatim>\<open>saveMintRecord\<close> writes
  \<^verbatim>\<open>status: 'success'\<close> after spreading \<^verbatim>\<open>mintData\<close>, which overwrites the \<^verbatim>\<open>failed\<close> the
  handler passed. With a swap that returns \<^verbatim>\<open>success: false\<close> without throwing (what
  \<^verbatim>\<open>executeSwap\<close> does on every failure) the handler takes the success path: the record
  has status \<^verbatim>\<open>success\<close> and no transaction hash, and the response is the success response.
\<close>

theorem C4_failed_swap_recorded_as_success:
  "fst (verify (scenario_env 1000 (Inl ''boom'')) (scenario_request ''abc'') (scenario_world 9))
     = MINT_FAILED ''boom'' (JStr ''abc'')
   \<and> map (\<lambda>r. (get_prop r ''status'', get_prop r ''error_message''))
        (mint_records (ledger (snd (verify (scenario_env 1000 (Inl ''boom''))
           (scenario_request ''abc'') (scenario_world 9)))) ''0xfrom'')
     = [(JStr ''success'', JStr ''boom'')]
   \<and> fst (verify (scenario_env 1000 (Inr not_swapped)) (scenario_request ''abc'') (scenario_world 9))
     = SUCCESS (JStr ''abc'')
         (Some [(''mint_record_id'', JNum 1000), (''mint_count'', JNum 1),
                (''tx_hash'', JUndefined)])
   \<and> map (\<lambda>r. (get_prop r ''status'', get_prop r ''error_message''))
        (mint_records (ledger (snd (verify (scenario_env 1000 (Inr not_swapped))
           (scenario_request ''abc'') (scenario_world 9)))) ''0xfrom'')
     = [(JStr ''success'', JUndefined)]"
  by (simp add: scenario_defs not_swapped_def route_defs Let_def)

text \<open>
  C8, as stated, fails when the request's nonce is already recorded: the nonce gate comes
  first. After the first scenario the quota is exhausted (10 of 10), and the follow-up
  with the same nonce is answered \<^verbatim>\<open>DUPLICATE_NONCE\<close>, not \<^verbatim>\<open>MINT_LIMIT_REACHED\<close>.
\<close>

theorem C8_duplicate_nonce_counterexample:
  "currentCount (fst (checkMintLimit ''token-mint''
      (ledger (snd (verify (scenario_env 1000 (Inr swapped)) (scenario_request ''abc'')
         (scenario_world 9)))))) = 10
   \<and> maxCount (fst (checkMintLimit ''token-mint''
      (ledger (snd (verify (scenario_env 1000 (Inr swapped)) (scenario_request ''abc'')
         (scenario_world 9)))))) = 10
   \<and> templateId (scenario_request ''abc'') = Some ''token-mint''
   \<and> fst (verify (scenario_env 2000 (Inr swapped)) (scenario_request ''abc'')
        (snd (verify (scenario_env 1000 (Inr swapped)) (scenario_request ''abc'')
           (scenario_world 9)))) = DUPLICATE_NONCE"
  by (simp add: scenario_defs route_defs Let_def)

text \<open>
  C8, amended: for every \<^verbatim>\<open>token-mint\<close> request whose nonce is not recorded, arriving when
  the template's quota is exhausted (\<open>currentCount \<ge> maxCount\<close>, as \<^verbatim>\<open>checkMintLimit\<close>
  reads them), the handler answers \<^verbatim>\<open>MINT_LIMIT_REACHED\<close> with the current and the maximal
  count; the settlement provider is not called (no effect is logged), and neither the
  mint counter nor the payment records change.
\<close>

theorem C8_quota_exhausted:
  assumes "templateId req = Some ''token-mint''"
    and "\<not> checkNonceExists (nonce req) (clock env) (ledger w)"
    and "limitCheck = fst (checkMintLimit ''token-mint'' (ledger w))"
    and "currentCount limitCheck \<ge> maxCount limitCheck"
  shows "fst (verify env req w)
           = MINT_LIMIT_REACHED (currentCount limitCheck) (maxCount limitCheck)
       \<and> currentCount limitCheck = getCurrentMintCount ''token-mint'' (ledger w)
       \<and> effects (snd (verify env req w)) = effects w
       \<and> mint_count (ledger (snd (verify env req w))) = mint_count (ledger w)
       \<and> payment_nonce (ledger (snd (verify env req w))) = payment_nonce (ledger w)
       \<and> mint_records (ledger (snd (verify env req w))) = mint_records (ledger w)"
  using assms
  by (simp add: verify_def limit_gate_def checkMintLimit_def initializeTemplateConfig_def
      getCurrentMintCount_def Let_def split: prod.splits)

text \<open>The second end-to-end scenario: 10 of 10 minted, a fresh nonce.\<close>

theorem C8_quota_exhausted_witness:
  "templateId (scenario_request ''xyz'') = Some ''token-mint''
   \<and> \<not> checkNonceExists (nonce (scenario_request ''xyz'')) (clock (scenario_env 1000 (Inr swapped)))
         (ledger (scenario_world 10))
   \<and> currentCount (fst (checkMintLimit ''token-mint'' (ledger (scenario_world 10)))) = 10
   \<and> maxCount (fst (checkMintLimit ''token-mint'' (ledger (scenario_world 10)))) = 10
   \<and> fst (verify (scenario_env 1000 (Inr swapped)) (scenario_request ''xyz'') (scenario_world 10))
       = MINT_LIMIT_REACHED 10 10
   \<and> effects (snd (verify (scenario_env 1000 (Inr swapped)) (scenario_request ''xyz'')
        (scenario_world 10))) = []"
proof -
  let ?lc = "fst (checkMintLimit ''token-mint'' (ledger (scenario_world 10)))"
  have h1: "templateId (scenario_request ''xyz'') = Some ''token-mint''"
    by (simp add: scenario_request_def)
  have h2: "\<not> checkNonceExists (nonce (scenario_request ''xyz''))
               (clock (scenario_env 1000 (Inr swapped))) (ledger (scenario_world 10))"
    by (simp add: scenario_defs checkNonceExists_def)
  have c: "currentCount ?lc = 10" "maxCount ?lc = 10"
    by (simp_all add: scenario_defs checkMintLimit_def initializeTemplateConfig_def
        getCurrentMintCount_def Let_def)
  then have h4: "currentCount ?lc \<ge> maxCount ?lc" by simp
  from C8_quota_exhausted[OF h1 h2 refl h4]
  have "fst (verify (scenario_env 1000 (Inr swapped)) (scenario_request ''xyz'') (scenario_world 10))
          = MINT_LIMIT_REACHED (currentCount ?lc) (maxCount ?lc)"
    and "effects (snd (verify (scenario_env 1000 (Inr swapped)) (scenario_request ''xyz'')
           (scenario_world 10))) = effects (scenario_world 10)"
    by blast+
  then show ?thesis using h1 h2 c by (simp add: scenario_world_def)
qed

text \<open>
  Run one at a time, the requests do keep the counter within the cap: the handler, from
  its first line to its response with no other request in between, never takes the
  counter above \<^verbatim>\<open>max_mint_count\<close>, and leaves \<^verbatim>\<open>max_mint_count\<close> as it is.
\<close>

lemma maxCount_checkMintLimit:
  "maxCount (fst (checkMintLimit t l)) =
     (case template_config l t of None \<Rightarrow> 10 | Some config \<Rightarrow> max_mint_count config)"
  by (simp add: checkMintLimit_def initializeTemplateConfig_def Let_def split: option.splits)

lemma initializeTemplateConfig_view:
  "mint_count (initializeTemplateConfig t l) = mint_count l"
  "maxCount (fst (checkMintLimit t (initializeTemplateConfig t l))) = maxCount (fst (checkMintLimit t l))"
  "getCurrentMintCount t (initializeTemplateConfig t l) = getCurrentMintCount t l"
  by (simp_all add: maxCount_checkMintLimit initializeTemplateConfig_def getCurrentMintCount_def)

lemma limit_gate_mint:
  assumes "templateId req = Some ''token-mint''"
  shows "limit_gate req l =
     (if getCurrentMintCount ''token-mint'' l < maxCount (fst (checkMintLimit ''token-mint'' l))
      then None
      else Some (MINT_LIMIT_REACHED (getCurrentMintCount ''token-mint'' l)
                   (maxCount (fst (checkMintLimit ''token-mint'' l)))),
      initializeTemplateConfig ''token-mint'' l)"
  using assms
  by (simp add: limit_gate_def checkMintLimit_def initializeTemplateConfig_view Let_def)

lemma savePaymentRecord_view:
  "mint_count (snd (savePaymentRecord n d t l)) = mint_count l"
  "template_config (snd (savePaymentRecord n d t l)) = template_config l"
  by (simp_all add: savePaymentRecord_def Let_def)

lemma save_mint_leg_view:
  "mint_count (ledger (snd (save_mint_leg env req pr outcome w))) = mint_count (ledger w)"
  "template_config (ledger (snd (save_mint_leg env req pr outcome w))) = template_config (ledger w)"
  by (simp_all add: save_mint_leg_def saveMintRecord_def Let_def split: sum.splits)

lemma mint_leg_view:
  "getCurrentMintCount ''token-mint'' (ledger (snd (mint_leg env req pr w)))
     = getCurrentMintCount ''token-mint'' (ledger w) + 1"
  "template_config (ledger (snd (mint_leg env req pr w))) = template_config (ledger w)"
  by (simp_all add: mint_leg_def incrementMintCount_def getCurrentMintCount_def
      save_mint_leg_view Let_def)

lemma settle_leg_view:
  "getCurrentMintCount ''token-mint'' (ledger (snd (settle_leg env req w)))
     = getCurrentMintCount ''token-mint'' (ledger w) \<or>
   (templateId req = Some ''token-mint'' \<and>
    getCurrentMintCount ''token-mint'' (ledger (snd (settle_leg env req w)))
      = getCurrentMintCount ''token-mint'' (ledger w) + 1)"
  "template_config (ledger (snd (settle_leg env req w))) = template_config (ledger w)"
proof -
  obtain pr l2 where sp:
    "savePaymentRecord (nonce req) (payment_data req) (clock env) (ledger w) = (pr, l2)"
    by (cases "savePaymentRecord (nonce req) (payment_data req) (clock env) (ledger w)")
  then have l2: "mint_count l2 = mint_count (ledger w)" "template_config l2 = template_config (ledger w)"
    using savePaymentRecord_view[of "nonce req" "payment_data req" "clock env" "ledger w"]
    by simp_all
  let ?w2 = "w\<lparr>ledger := l2,
                effects := (effects w @ [SettleCalled (nonce req)]) @ [PaymentSaved (nonce req)]\<rparr>"
  have m: "getCurrentMintCount ''token-mint'' (ledger (snd (mint_leg env req pr ?w2)))
             = getCurrentMintCount ''token-mint'' (ledger w) + 1"
    "template_config (ledger (snd (mint_leg env req pr ?w2))) = template_config (ledger w)"
    using mint_leg_view[of env req pr ?w2] l2 by (simp_all add: getCurrentMintCount_def)
  have same: "getCurrentMintCount ''token-mint'' l2 = getCurrentMintCount ''token-mint'' (ledger w)"
    using l2 by (simp add: getCurrentMintCount_def)
  show "getCurrentMintCount ''token-mint'' (ledger (snd (settle_leg env req w)))
     = getCurrentMintCount ''token-mint'' (ledger w) \<or>
   (templateId req = Some ''token-mint'' \<and>
    getCurrentMintCount ''token-mint'' (ledger (snd (settle_leg env req w)))
      = getCurrentMintCount ''token-mint'' (ledger w) + 1)"
    using sp m(1) same by (simp add: settle_leg_def Let_def split: sum.splits)
  show "template_config (ledger (snd (settle_leg env req w))) = template_config (ledger w)"
    using sp m(2) l2(2) by (simp add: settle_leg_def Let_def split: sum.splits)
qed

lemma verify_alone_keeps_cap:
  assumes "getCurrentMintCount ''token-mint'' (ledger w)
             \<le> maxCount (fst (checkMintLimit ''token-mint'' (ledger w)))"
  shows "getCurrentMintCount ''token-mint'' (ledger (snd (verify env req w)))
           \<le> maxCount (fst (checkMintLimit ''token-mint'' (ledger (snd (verify env req w)))))
       \<and> maxCount (fst (checkMintLimit ''token-mint'' (ledger (snd (verify env req w)))))
           = maxCount (fst (checkMintLimit ''token-mint'' (ledger w)))"
proof (cases "checkNonceExists (nonce req) (clock env) (ledger w)")
  case True
  then show ?thesis using assms by (simp add: verify_def)
next
  case False
  let ?cur = "getCurrentMintCount ''token-mint'' (ledger w)"
  let ?M = "maxCount (fst (checkMintLimit ''token-mint'' (ledger w)))"
  let ?l1 = "initializeTemplateConfig ''token-mint'' (ledger w)"
  let ?w1 = "w\<lparr>ledger := ?l1\<rparr>"
  have cap: "maxCount (fst (checkMintLimit ''token-mint'' (ledger (snd (settle_leg env req w')))))
               = maxCount (fst (checkMintLimit ''token-mint'' (ledger w')))" for w'
    using settle_leg_view(2)[of env req w'] by (simp add: maxCount_checkMintLimit)
  show ?thesis
  proof (cases "templateId req = Some ''token-mint''")
    case mint: True
    show ?thesis
    proof (cases "?cur < ?M")
      case True
      then have v: "verify env req w = settle_leg env req ?w1"
        using False mint by (simp add: verify_def limit_gate_mint)
      have "getCurrentMintCount ''token-mint'' (ledger (snd (verify env req w))) \<le> ?cur + 1"
        using settle_leg_view(1)[of env req ?w1]
        by (auto simp: v initializeTemplateConfig_view)
      moreover have "maxCount (fst (checkMintLimit ''token-mint'' (ledger (snd (verify env req w)))))
                       = ?M"
        using cap[of ?w1] by (simp add: v initializeTemplateConfig_view)
      ultimately show ?thesis using True by simp
    next
      case full: False
      then have "snd (verify env req w) = ?w1"
        using False mint by (simp add: verify_def limit_gate_mint)
      then show ?thesis using assms by (simp add: initializeTemplateConfig_view)
    qed
  next
    case other: False
    then have v: "verify env req w = settle_leg env req w"
      using False by (simp add: verify_def limit_gate_def)
    have "getCurrentMintCount ''token-mint'' (ledger (snd (verify env req w))) = ?cur"
      using settle_leg_view(1)[of env req w] other by (simp add: v)
    moreover have "maxCount (fst (checkMintLimit ''token-mint'' (ledger (snd (verify env req w)))))
                     = ?M"
      using cap[of w] by (simp add: v)
    ultimately show ?thesis using assms by simp
  qed
qed

section \<open>Properties of the swap service\<close>


lemma returns_Inr [simp]: "(returns a s = (Inr r, s')) \<longleftrightarrow> (r = a \<and> s' = s)"
  by (auto simp: returns_def)

lemma throws_Inr [simp]: "throws e s \<noteq> (Inr r, s')"
  by (simp add: throws_def)

lemma awaited_Inr [simp]: "(awaited outcome s = (Inr r, s')) \<longleftrightarrow> (outcome = Inr r \<and> s' = s)"
  by (auto simp: awaited_def)








end
